theory Spec2Isabelle
  imports Complex_Main
begin

section \<open>Values\<close>

text \<open>
  A float64 value is either missing (pandas writes it as NaN) or a number. Numbers are
  idealised as reals: rounding error and the infinities are outside the model.
\<close>

datatype pyfloat = NaN | Fin real

datatype py_error = FileNotFoundError | UnpicklingError | AttributeError | KeyError
  | ValueError | IndexError

text \<open>The values of a float64 series that are not missing, in order (\<open>skipna=True\<close>).\<close>

fun notna :: "pyfloat list \<Rightarrow> real list" where
  "notna [] = []"
| "notna (NaN # xs) = notna xs"
| "notna (Fin r # xs) = r # notna xs"

section \<open>Series reductions used by the statistics of \<open>predict_from_csv\<close>\<close>

text \<open>
  \<open>Series.mean()\<close>, \<open>Series.min()\<close>, \<open>Series.max()\<close> and \<open>Series.std()\<close> skip
  missing values and answer NaN when nothing is left; \<open>std\<close> is called without
  arguments in the source, so it divides by \<open>n - 1\<close> (pandas' default \<open>ddof=1\<close>) and
  answers NaN when fewer than two values are left.
\<close>

definition series_mean :: "pyfloat list \<Rightarrow> pyfloat" where
  "series_mean xs =
     (let ys = notna xs in
      if ys = [] then NaN else Fin (sum_list ys / real (length ys)))"

definition series_min :: "pyfloat list \<Rightarrow> pyfloat" where
  "series_min xs = (let ys = notna xs in if ys = [] then NaN else Fin (Min (set ys)))"

definition series_max :: "pyfloat list \<Rightarrow> pyfloat" where
  "series_max xs = (let ys = notna xs in if ys = [] then NaN else Fin (Max (set ys)))"

definition series_std :: "pyfloat list \<Rightarrow> pyfloat" where
  "series_std xs =
     (let ys = notna xs; n = length ys in
      if n \<le> 1 then NaN
      else let m = sum_list ys / real n in
           Fin (sqrt (sum_list (map (\<lambda>y. (y - m)\<^sup>2) ys) / real (n - 1))))"

text \<open>Comparisons of a series with a number: a missing value compares False.\<close>

fun gt :: "pyfloat \<Rightarrow> real \<Rightarrow> bool" where
  "gt NaN c = False"
| "gt (Fin r) c = (r > c)"

fun le :: "pyfloat \<Rightarrow> real \<Rightarrow> bool" where
  "le NaN c = False"
| "le (Fin r) c = (r \<le> c)"

record stats =
  mean :: pyfloat
  min_v :: pyfloat
  max_v :: pyfloat
  std :: pyfloat
  risk_count :: nat
  no_risk_count :: nat

text \<open>The \<open>statistics\<close> dictionary of \<open>predict_from_csv\<close> (main.py, lines 114-121),
  as a function of the \<open>prediction\<close> column.\<close>

definition statistics :: "pyfloat list \<Rightarrow> stats" where
  "statistics prediction =
     \<lparr> mean = series_mean prediction,
       min_v = series_min prediction,
       max_v = series_max prediction,
       std = series_std prediction,
       risk_count = length (filter (\<lambda>p. gt p 0.5) prediction),
       no_risk_count = length (filter (\<lambda>p. le p 0.5) prediction) \<rparr>"

section \<open>Text\<close>

text \<open>
  Column labels and text cells are strings of ASCII characters; \<open>str.lower()\<close> maps the
  letters A-Z to a-z and leaves every other character as it is. (What Python's Unicode
  case mapping does beyond ASCII is outside the model.)
\<close>

definition char_lower :: "char \<Rightarrow> char" where
  "char_lower c =
     (case map_of (zip ''ABCDEFGHIJKLMNOPQRSTUVWXYZ'' ''abcdefghijklmnopqrstuvwxyz'') c of
        Some d \<Rightarrow> d
      | None \<Rightarrow> c)"

definition str_lower :: "string \<Rightarrow> string" where
  "str_lower s = map char_lower s"

section \<open>Data frames\<close>

text \<open>
  A cell of an object-dtype column, as \<open>pd.read_csv\<close> and \<open>pd.DataFrame([data])\<close>
  produce them: a text, \<open>None\<close>, a missing marker (NaN), or any other Python object,
  kept as the text \<open>str()\<close> gives for it.
\<close>

datatype obj = OStr string | ONone | ONaN | OOther string

text \<open>A column carries its dtype: \<open>object\<close>, \<open>float64\<close>, \<open>int64\<close> or \<open>bool\<close>.\<close>

datatype column =
    ObjectCol "obj list"
  | Float64Col "pyfloat list"
  | Int64Col "int list"
  | BoolCol "bool list"

text \<open>
  A frame has a number of rows (\<open>len(df)\<close>) and its columns in order. Labels may repeat:
  pandas allows it, and lower-casing the labels can make two of them equal.
\<close>

record frame =
  nrows :: nat
  cols :: "(string \<times> column) list"

definition columns :: "frame \<Rightarrow> string list" where
  "columns f = map fst (cols f)"

text \<open>\<open>df[name]\<close>: a series when the label occurs once, a sub-frame when it repeats,
  \<open>KeyError\<close> when it is absent.\<close>

datatype selection = Series column | SubFrame "column list"

definition getitem :: "frame \<Rightarrow> string \<Rightarrow> py_error + selection" where
  "getitem f name =
     (case map snd (filter (\<lambda>p. fst p = name) (cols f)) of
        [] \<Rightarrow> Inl KeyError
      | [c] \<Rightarrow> Inr (Series c)
      | c # d # cs \<Rightarrow> Inr (SubFrame (c # d # cs)))"

text \<open>\<open>df[name] = series\<close>: replaces the column in place, or appends a new one.\<close>

definition setitem :: "frame \<Rightarrow> string \<Rightarrow> column \<Rightarrow> frame" where
  "setitem f name c =
     (if name \<in> set (columns f)
      then f\<lparr>cols := map (\<lambda>p. if fst p = name then (name, c) else p) (cols f)\<rparr>
      else f\<lparr>cols := cols f @ [(name, c)]\<rparr>)"

text \<open>\<open>df.drop(columns=labels, errors=...)\<close>: a new frame without the labelled columns;
  with \<open>errors='raise'\<close> an absent label is a \<open>KeyError\<close>.\<close>

definition drop_columns :: "frame \<Rightarrow> string list \<Rightarrow> bool \<Rightarrow> py_error + frame" where
  "drop_columns f labels ignore =
     (if \<not> ignore \<and> (\<exists>l \<in> set labels. l \<notin> set (columns f)) then Inl KeyError
      else Inr (f\<lparr>cols := filter (\<lambda>p. fst p \<notin> set labels) (cols f)\<rparr>))"

section \<open>Series operations used by \<open>preprocess_data\<close>\<close>

fun py_str :: "obj \<Rightarrow> string" where
  "py_str (OStr s) = s"
| "py_str ONone = ''None''"
| "py_str ONaN = ''nan''"
| "py_str (OOther s) = s"

text \<open>\<open>Series.map(d)\<close> with a dictionary: a key that is absent gives NaN.\<close>

definition series_map :: "(string \<times> int) list \<Rightarrow> string list \<Rightarrow> pyfloat list" where
  "series_map d xs =
     map (\<lambda>s. case map_of d s of Some v \<Rightarrow> Fin (of_int v) | None \<Rightarrow> NaN) xs"

definition fillna :: "pyfloat list \<Rightarrow> pyfloat \<Rightarrow> pyfloat list" where
  "fillna xs v = map (\<lambda>x. case x of NaN \<Rightarrow> v | Fin r \<Rightarrow> Fin r) xs"

text \<open>\<open>Series.median()\<close>: the middle of the sorted values that are not missing, the mean
  of the two middle ones when their number is even, NaN when there is none.\<close>

definition series_median :: "pyfloat list \<Rightarrow> pyfloat" where
  "series_median xs =
     (let ys = sort (notna xs); n = length ys in
      if n = 0 then NaN
      else if odd n then Fin (ys ! (n div 2))
      else Fin ((ys ! (n div 2 - 1) + ys ! (n div 2)) / 2))"

text \<open>\<open>Series.round()\<close> rounds to the nearest integer, a tie to the even neighbour.\<close>

definition round_half_even :: "real \<Rightarrow> real" where
  "round_half_even r =
     (let f = \<lfloor>r\<rfloor>; d = r - of_int f in
      if d < 1 / 2 then of_int f
      else if 1 / 2 < d then of_int (f + 1)
      else if even f then of_int f else of_int (f + 1))"

definition series_round :: "pyfloat list \<Rightarrow> pyfloat list" where
  "series_round xs = map (\<lambda>x. case x of NaN \<Rightarrow> NaN | Fin r \<Rightarrow> Fin (round_half_even r)) xs"

text \<open>
  \<open>astype(int)\<close> on a float64 series raises (a \<open>ValueError\<close>) when a value is missing;
  otherwise each value is truncated towards zero into an int64. A value outside the int64
  range is left to the C conversion by numpy; the model takes the x86-64 answer, \<open>-2^63\<close>.
\<close>

definition to_int64 :: "real \<Rightarrow> int" where
  "to_int64 r =
     (let z = (if 0 \<le> r then \<lfloor>r\<rfloor> else \<lceil>r\<rceil>) in
      if - (2 ^ 63) \<le> z \<and> z < 2 ^ 63 then z else - (2 ^ 63))"

definition astype_int :: "pyfloat list \<Rightarrow> py_error + int list" where
  "astype_int xs =
     (if NaN \<in> set xs then Inl ValueError
      else Inr (map (\<lambda>x. case x of NaN \<Rightarrow> 0 | Fin r \<Rightarrow> to_int64 r) xs))"

section \<open>\<open>HeartAttackModel.preprocess_data\<close>\<close>

definition gender_map :: "(string \<times> int) list" where
  "gender_map = [(''male'', 0), (''female'', 1), (''1.0'', 0), (''0.0'', 1), (''1'', 0), (''0'', 1)]"

definition drop_cols :: "string list" where
  "drop_cols = [''unnamed:_0'', ''id'', ''income'']"

definition binary_cols :: "string list" where
  "binary_cols = [''diabetes'', ''family_history'', ''smoking'', ''obesity'',
     ''alcohol_consumption'', ''previous_heart_problems'', ''medication_use'']"

text \<open>
  Lines 67-70. \<open>df_processed['gender'].dtype\<close> exists for a series only: when the label
  repeats the selection is a frame and the attribute access raises. The chain
  \<open>astype(str).str.lower().map(gender_map).fillna(0).astype(int)\<close> runs for dtype
  \<open>object\<close> only.
\<close>

fun encode_gender_sel :: "frame \<Rightarrow> selection \<Rightarrow> py_error + frame" where
  "encode_gender_sel f (SubFrame cs) = Inl AttributeError"
| "encode_gender_sel f (Series (ObjectCol vs)) =
     (case astype_int (fillna (series_map gender_map (map str_lower (map py_str vs))) (Fin 0)) of
        Inl e \<Rightarrow> Inl e
      | Inr ns \<Rightarrow> Inr (setitem f ''gender'' (Int64Col ns)))"
| "encode_gender_sel f (Series c) = Inr f"

definition encode_gender :: "frame \<Rightarrow> py_error + frame" where
  "encode_gender f =
     (if ''gender'' \<in> set (columns f) then
        (case getitem f ''gender'' of
           Inl e \<Rightarrow> Inl e
         | Inr s \<Rightarrow> encode_gender_sel f s)
      else Inr f)"

text \<open>Lines 76-79, the body of the loop for one label that is present.\<close>

fun coerce_binary :: "frame \<Rightarrow> string \<Rightarrow> selection \<Rightarrow> py_error + frame" where
  "coerce_binary f col (SubFrame cs) = Inl AttributeError"
| "coerce_binary f col (Series (Float64Col xs)) =
     (case astype_int (series_round (fillna xs (series_median xs))) of
        Inl e \<Rightarrow> Inl e
      | Inr ns \<Rightarrow> Inr (setitem f col (Int64Col ns)))"
| "coerce_binary f col (Series c) = Inr f"

fun binary_loop :: "string list \<Rightarrow> frame \<Rightarrow> py_error + frame" where
  "binary_loop [] f = Inr f"
| "binary_loop (col # rest) f =
     (if col \<in> set (columns f) then
        (case getitem f col of
           Inl e \<Rightarrow> Inl e
         | Inr s \<Rightarrow>
            (case coerce_binary f col s of
               Inl e \<Rightarrow> Inl e
             | Inr f' \<Rightarrow> binary_loop rest f'))
      else binary_loop rest f)"

text \<open>
  Lines 82-85. \<open>select_dtypes(include=[np.number])\<close> keeps the float64 and int64 columns.
  For a label that repeats, \<open>df_processed[col].isnull().any()\<close> is a series of several
  truth values and the \<open>if\<close> raises a \<open>ValueError\<close>. Only a float64 series can hold a
  missing value.
\<close>

fun is_number :: "column \<Rightarrow> bool" where
  "is_number (Float64Col xs) = True"
| "is_number (Int64Col ns) = True"
| "is_number c = False"

definition numeric_cols :: "frame \<Rightarrow> string list" where
  "numeric_cols f = map fst (filter (\<lambda>p. is_number (snd p)) (cols f))"

fun impute :: "frame \<Rightarrow> string \<Rightarrow> selection \<Rightarrow> py_error + frame" where
  "impute f col (SubFrame cs) = Inl ValueError"
| "impute f col (Series (Float64Col xs)) =
     (if NaN \<in> set xs then Inr (setitem f col (Float64Col (fillna xs (series_median xs))))
      else Inr f)"
| "impute f col (Series c) = Inr f"

fun numeric_loop :: "string list \<Rightarrow> frame \<Rightarrow> py_error + frame" where
  "numeric_loop [] f = Inr f"
| "numeric_loop (col # rest) f =
     (case getitem f col of
        Inl e \<Rightarrow> Inl e
      | Inr s \<Rightarrow>
         (case impute f col s of
            Inl e \<Rightarrow> Inl e
          | Inr f' \<Rightarrow> numeric_loop rest f'))"

text \<open>
  Frames are objects: a store holds them and a variable holds the position of one.
  \<open>df.copy()\<close> and \<open>drop\<close> make a new object; assigning \<open>columns\<close> and \<open>df[col] = ...\<close>
  change the object the variable points to. The working copy is known to
  \<open>preprocess_data\<close> alone until it is returned, so each of the three steps on it
  (gender, binary columns, numeric columns) is computed on the frame and written back
  once; when a step raises, the copy is unreachable and the store keeps it as the step
  before left it.
\<close>

type_synonym store = "frame list"

definition new_frame :: "store \<Rightarrow> frame \<Rightarrow> store \<times> nat" where
  "new_frame st f = (st @ [f], length st)"

definition set_columns :: "store \<Rightarrow> nat \<Rightarrow> string list \<Rightarrow> store" where
  "set_columns st p names = st[p := (st ! p)\<lparr>cols := zip names (map snd (cols (st ! p)))\<rparr>]"

definition preprocess_data :: "store \<Rightarrow> nat \<Rightarrow> store \<times> (py_error + nat)" where
  "preprocess_data st df =
     (let (st1, copy) = new_frame st (st ! df);
          st2 = set_columns st1 copy (map str_lower (columns (st1 ! copy)))
      in case drop_columns (st2 ! copy)
                [col \<leftarrow> drop_cols. col \<in> set (columns (st2 ! copy))] True of
           Inl e \<Rightarrow> (st2, Inl e)
         | Inr dropped \<Rightarrow>
            (let (st3, df_processed) = new_frame st2 dropped in
             case encode_gender (st3 ! df_processed) of
               Inl e \<Rightarrow> (st3, Inl e)
             | Inr f4 \<Rightarrow>
                (let st4 = st3[df_processed := f4] in
                 case binary_loop binary_cols (st4 ! df_processed) of
                   Inl e \<Rightarrow> (st4, Inl e)
                 | Inr f5 \<Rightarrow>
                    (let st5 = st4[df_processed := f5] in
                     case numeric_loop (numeric_cols (st5 ! df_processed)) (st5 ! df_processed) of
                       Inl e \<Rightarrow> (st5, Inl e)
                     | Inr f6 \<Rightarrow> (st5[df_processed := f6], Inr df_processed)))))"

section \<open>The model artifact\<close>

text \<open>
  The deserialised artifact is an opaque object. What the source asks of it is kept as
  optional capabilities, \<open>None\<close> where \<open>hasattr\<close> answers False: the attribute
  \<open>feature_names_in_\<close>, the dictionary \<open>named_steps\<close> of a pipeline, the methods
  \<open>get_params\<close> and \<open>predict_proba\<close>. \<open>predict\<close> is always there. The two scoring
  methods are functions of the frame they are given (scoring has no side effect). Class
  labels, scores and probabilities are numbers; a two-dimensional result is given by its
  columns.
\<close>

record step =
  step_type :: string
  has_feature_importances :: bool
  get_feature_names_out :: "(py_error + string list) option"

record artifact =
  type_name :: string
  feature_names_in :: "string list option"
  named_steps :: "(string \<times> step) list option"
  has_get_params :: bool
  predict_proba :: "(frame \<Rightarrow> py_error + pyfloat list list) option"
  predict :: "frame \<Rightarrow> py_error + pyfloat list"

record HeartAttackModel =
  model_path :: string
  model :: artifact
  feature_names :: "string list"

text \<open>Lines 32-38 of \<open>load_model\<close>. \<open>self.model.named_steps\<close> is a plain attribute
  access; \<open>.get('classifier', {})\<close> gives an empty dictionary, which has no
  \<open>feature_importances_\<close>, when there is no such step.\<close>

definition extract_feature_names :: "artifact \<Rightarrow> py_error + string list" where
  "extract_feature_names a =
     (case feature_names_in a of
        Some names \<Rightarrow> Inr names
      | None \<Rightarrow>
         (case named_steps a of
            None \<Rightarrow> Inl AttributeError
          | Some steps \<Rightarrow>
             (if (case map_of steps ''classifier'' of
                     Some s \<Rightarrow> has_feature_importances s
                   | None \<Rightarrow> False)
              then (case map_of steps ''preprocessor'' of
                      None \<Rightarrow> Inl KeyError
                    | Some pre \<Rightarrow>
                       (case get_feature_names_out pre of
                          None \<Rightarrow> Inl AttributeError
                        | Some r \<Rightarrow> r))
              else Inr [])))"

text \<open>\<open>__init__\<close> with \<open>load_model\<close>. The files are a map from a path to what
  \<open>joblib.load\<close> gives for it; the \<open>except\<close> clause logs and raises the same error.\<close>

definition load_model ::
  "(string \<Rightarrow> (py_error + artifact) option) \<Rightarrow> string \<Rightarrow> py_error + HeartAttackModel" where
  "load_model files path =
     (case files path of
        None \<Rightarrow> Inl FileNotFoundError
      | Some (Inl e) \<Rightarrow> Inl e
      | Some (Inr a) \<Rightarrow>
         (case extract_feature_names a of
            Inl e \<Rightarrow> Inl e
          | Inr names \<Rightarrow> Inr \<lparr>model_path = path, model = a, feature_names = names\<rparr>))"

datatype count = Count nat | Unknown

record model_info =
  info_model_path :: string
  model_type :: string
  features_count :: count
  model_loaded :: bool
  pipeline_steps :: "string list option"
  classifier_type :: "string option"

text \<open>\<open>get_model_info\<close>. A constructed \<open>HeartAttackModel\<close> always holds an artifact, so
  \<open>if self.model\<close> is taken.\<close>

definition get_model_info :: "HeartAttackModel \<Rightarrow> py_error + model_info" where
  "get_model_info self =
     (let info = \<lparr>info_model_path = model_path self,
                  model_type = type_name (model self),
                  features_count = (if feature_names self \<noteq> []
                                    then Count (length (feature_names self)) else Unknown),
                  model_loaded = True,
                  pipeline_steps = None,
                  classifier_type = None\<rparr>;
          info1 = (case named_steps (model self) of
                     Some steps \<Rightarrow> info\<lparr>pipeline_steps := Some (map fst steps)\<rparr>
                   | None \<Rightarrow> info)
      in if has_get_params (model self) then
           (case named_steps (model self) of
              None \<Rightarrow> Inl AttributeError
            | Some steps \<Rightarrow>
               Inr (info1\<lparr>classifier_type :=
                      Some (case map_of steps ''classifier'' of
                              Some s \<Rightarrow> step_type s
                            | None \<Rightarrow> type_name (model self))\<rparr>))
         else Inr info1)"

section \<open>\<open>predict_batch\<close> and \<open>predict_single\<close>\<close>

text \<open>\<open>a[:, 1]\<close> on a two-dimensional array: its second column, an \<open>IndexError\<close> when
  it has fewer than two.\<close>

definition column_1 :: "pyfloat list list \<Rightarrow> py_error + pyfloat list" where
  "column_1 a = (if 1 < length a then Inr (a ! 1) else Inl IndexError)"

text \<open>Lines 103-106.\<close>

definition predictions_of :: "artifact \<Rightarrow> frame \<Rightarrow> py_error + pyfloat list" where
  "predictions_of m df_processed =
     (case predict_proba m of
        Some proba \<Rightarrow>
          (case proba df_processed of
             Inl e \<Rightarrow> Inl e
           | Inr a \<Rightarrow> column_1 a)
      | None \<Rightarrow> predict m df_processed)"

text \<open>The result frame has the two columns \<open>id\<close> and \<open>prediction\<close>. The constructor
  \<open>pd.DataFrame({...})\<close> raises a \<open>ValueError\<close> when the two arrays differ in length, and
  when \<open>df['id'].values\<close> is two-dimensional (the label \<open>id\<close> repeats).\<close>

record result_df =
  id_column :: column
  prediction :: "pyfloat list"

fun col_length :: "column \<Rightarrow> nat" where
  "col_length (ObjectCol vs) = length vs"
| "col_length (Float64Col xs) = length xs"
| "col_length (Int64Col ns) = length ns"
| "col_length (BoolCol bs) = length bs"

fun make_result :: "selection \<Rightarrow> pyfloat list \<Rightarrow> py_error + result_df" where
  "make_result (SubFrame cs) predictions = Inl ValueError"
| "make_result (Series ids) predictions =
     (if col_length ids = length predictions
      then Inr \<lparr>id_column = ids, prediction = predictions\<rparr>
      else Inl ValueError)"

text \<open>Line 110: the identifiers are read from \<open>df\<close>, the frame the caller passed,
  after \<open>preprocess_data\<close> has run.\<close>

definition row_ids :: "frame \<Rightarrow> py_error + selection" where
  "row_ids df =
     (if ''id'' \<in> set (columns df) then getitem df ''id''
      else Inr (Series (Int64Col (map int [0..<nrows df]))))"

definition predict_batch :: "HeartAttackModel \<Rightarrow> store \<Rightarrow> nat \<Rightarrow> store \<times> (py_error + result_df)" where
  "predict_batch self st df =
     (case preprocess_data st df of
        (st1, Inl e) \<Rightarrow> (st1, Inl e)
      | (st1, Inr df_processed) \<Rightarrow>
         (case predictions_of (model self) (st1 ! df_processed) of
            Inl e \<Rightarrow> (st1, Inl e)
          | Inr predictions \<Rightarrow>
             (case row_ids (st1 ! df) of
                Inl e \<Rightarrow> (st1, Inl e)
              | Inr ids \<Rightarrow> (st1, make_result ids predictions))))"

text \<open>\<open>result_df['prediction'].iloc[0]\<close>: an \<open>IndexError\<close> on an empty column.\<close>

definition predict_single :: "HeartAttackModel \<Rightarrow> store \<Rightarrow> nat \<Rightarrow> store \<times> (py_error + pyfloat)" where
  "predict_single self st df =
     (case predict_batch self st df of
        (st1, Inl e) \<Rightarrow> (st1, Inl e)
      | (st1, Inr result) \<Rightarrow>
         (case prediction result of
            [] \<Rightarrow> (st1, Inl IndexError)
          | p # ps \<Rightarrow> (st1, Inr p)))"

section \<open>The endpoint \<open>predict_from_csv\<close>\<close>

text \<open>
  The endpoint answers an HTTP error with a status code, or the batch response. Its
  arguments are the global \<open>model\<close> (\<open>None\<close> when loading failed), the name of the
  uploaded file and what \<open>pd.read_csv\<close> made of its contents. Every exception inside the
  \<open>try\<close> block becomes status 500. Writing \<open>temp_predictions.csv\<close> is not modelled.
\<close>

datatype http_error = HTTPException nat

record batch_response =
  processed :: nat
  predictions :: result_df
  download_url :: string
  statistics_of :: stats

definition endswith :: "string \<Rightarrow> string \<Rightarrow> bool" where
  "endswith s suffix = (length suffix \<le> length s \<and> drop (length s - length suffix) s = suffix)"

definition predict_from_csv ::
  "HeartAttackModel option \<Rightarrow> string \<Rightarrow> py_error + frame \<Rightarrow> http_error + batch_response" where
  "predict_from_csv global_model filename read_csv =
     (case global_model of
        None \<Rightarrow> Inl (HTTPException 503)
      | Some m \<Rightarrow>
         if \<not> endswith filename ''.csv'' then Inl (HTTPException 400)
         else (case read_csv of
                 Inl e \<Rightarrow> Inl (HTTPException 500)
               | Inr df \<Rightarrow>
                  (case predict_batch m [df] 0 of
                     (st, Inl e) \<Rightarrow> Inl (HTTPException 500)
                   | (st, Inr predictions_df) \<Rightarrow>
                      Inr \<lparr>processed = length (prediction predictions_df),
                           predictions = predictions_df,
                           download_url = ''/download/temp_predictions.csv'',
                           statistics_of = statistics (prediction predictions_df)\<rparr>)))"

section \<open>Definitions taken from the specification\<close>

text \<open>The population standard deviation (\<open>ddof=0\<close>) the specification names, for
  comparison with what the source computes.\<close>

definition population_std :: "real list \<Rightarrow> real" where
  "population_std ys =
     (let m = sum_list ys / real (length ys) in
      sqrt (sum_list (map (\<lambda>y. (y - m)\<^sup>2) ys) / real (length ys)))"

text \<open>
  The values of a column that are present, and the median in the usual sense: the middle
  of the sorted values, the mean of the two middle ones when their number is even. Both
  are written with the list functions of the library alone.
\<close>

abbreviation present :: "pyfloat list \<Rightarrow> real list" where
  "present xs \<equiv> [r. Fin r \<leftarrow> xs]"

abbreviation middle :: "real list \<Rightarrow> real" where
  "middle ys \<equiv> (sort ys ! ((length ys - 1) div 2) + sort ys ! (length ys div 2)) / 2"

text \<open>The specification's \<open>predictSingle\<close>: \<open>predictBatch\<close> over the one-row input,
  returning that row's prediction.\<close>

definition predictSingle_spec ::
  "HeartAttackModel \<Rightarrow> store \<Rightarrow> nat \<Rightarrow> store \<times> (py_error + pyfloat)" where
  "predictSingle_spec self st df =
     (case predict_batch self st df of
        (st1, Inl e) \<Rightarrow> (st1, Inl e)
      | (st1, Inr result) \<Rightarrow> (st1, Inr (prediction result ! 0)))"

section \<open>Notions used in the statements and proofs\<close>

text \<open>The columns of a frame that carry a label, in order; the frame after lines 59-60
  (labels in lower case) and after line 64 (without the dropped labels); the gender code
  of one cell.\<close>

definition labelled :: "frame \<Rightarrow> string \<Rightarrow> column list" where
  "labelled f name = map snd (filter (\<lambda>q. fst q = name) (cols f))"

definition lower_columns :: "frame \<Rightarrow> frame" where
  "lower_columns f = f\<lparr>cols := zip (map str_lower (columns f)) (map snd (cols f))\<rparr>"

definition prune :: "frame \<Rightarrow> frame" where
  "prune f = f\<lparr>cols := filter (\<lambda>q. fst q \<notin> set drop_cols) (cols f)\<rparr>"

definition gender_code :: "obj \<Rightarrow> int" where
  "gender_code v = (case map_of gender_map (str_lower (py_str v)) of Some n \<Rightarrow> n | None \<Rightarrow> 0)"

fun is_float :: "column \<Rightarrow> bool" where
  "is_float (Float64Col xs) = True"
| "is_float c = False"

text \<open>
  A frame is normalizable when its lower-cased labels are distinct and no float64 column
  of the fixed set has values that are all missing (and at least one row).
\<close>

fun all_missing :: "column \<Rightarrow> bool" where
  "all_missing (Float64Col xs) = (NaN \<in> set xs \<and> notna xs = [])"
| "all_missing c = False"

definition normalizable :: "frame \<Rightarrow> bool" where
  "normalizable f =
     (distinct (map str_lower (columns f)) \<and>
      list_all (\<lambda>q. str_lower (fst q) \<in> set binary_cols \<longrightarrow> \<not> all_missing (snd q)) (cols f))"

section \<open>Example inputs\<close>

text \<open>The single row of the specification's scenario and the frames it passes through.\<close>

definition scenario_row :: frame where
  "scenario_row = \<lparr>nrows = 1, cols = [(''age'', Int64Col [55]), (''cholesterol'', Int64Col [240]),
     (''heart_rate'', Int64Col [72]), (''gender'', ObjectCol [OStr ''male'']),
     (''diabetes'', Float64Col [Fin 1])]\<rparr>"

definition scenario_row_encoded :: frame where
  "scenario_row_encoded = \<lparr>nrows = 1, cols = [(''age'', Int64Col [55]),
     (''cholesterol'', Int64Col [240]), (''heart_rate'', Int64Col [72]),
     (''gender'', Int64Col [0]), (''diabetes'', Float64Col [Fin 1])]\<rparr>"

definition scenario_row_normalized :: frame where
  "scenario_row_normalized = \<lparr>nrows = 1, cols = [(''age'', Int64Col [55]),
     (''cholesterol'', Int64Col [240]), (''heart_rate'', Int64Col [72]),
     (''gender'', Int64Col [0]), (''diabetes'', Int64Col [1])]\<rparr>"

text \<open>The four-row batch of the specification's scenario, with an integer column whose
  values are not all 0 or 1.\<close>

definition diabetes_batch :: frame where
  "diabetes_batch = \<lparr>nrows = 4, cols = [(''diabetes'', Float64Col [Fin 1, NaN, Fin 0, Fin 1]),
     (''smoking'', Int64Col [0, 1, 5, 1])]\<rparr>"

definition diabetes_batch_normalized :: frame where
  "diabetes_batch_normalized = \<lparr>nrows = 4, cols = [(''diabetes'', Int64Col [1, 1, 0, 1]),
     (''smoking'', Int64Col [0, 1, 5, 1])]\<rparr>"

text \<open>
  A batch whose binary columns hold fractions, ties and missing values: the present values
  of \<open>Diabetes\<close> have the median 1.05, which is not among them, and those of
  \<open>medication_use\<close> have the median 0, which is not the first of them.
\<close>

definition rounding_batch :: frame where
  "rounding_batch = \<lparr>nrows = 5, cols =
     [(''Diabetes'', Float64Col [Fin 0.4, NaN, Fin 2.5, Fin 1.5, Fin 0.6]),
      (''medication_use'', Float64Col [Fin 1, NaN, Fin 0, Fin 0, NaN]),
      (''Obesity'', Int64Col [0, 1, 5, 1, 0])]\<rparr>"

definition rounding_batch_lowered :: frame where
  "rounding_batch_lowered = \<lparr>nrows = 5, cols =
     [(''diabetes'', Float64Col [Fin 0.4, NaN, Fin 2.5, Fin 1.5, Fin 0.6]),
      (''medication_use'', Float64Col [Fin 1, NaN, Fin 0, Fin 0, NaN]),
      (''obesity'', Int64Col [0, 1, 5, 1, 0])]\<rparr>"

definition rounding_batch_normalized :: frame where
  "rounding_batch_normalized = \<lparr>nrows = 5, cols =
     [(''diabetes'', Int64Col [0, 1, 2, 2, 1]),
      (''medication_use'', Int64Col [1, 0, 0, 0, 0]),
      (''obesity'', Int64Col [0, 1, 5, 1, 0])]\<rparr>"

text \<open>A batch whose labels are in mixed case, and a batch with an \<open>id\<close> column.\<close>

definition mixed_case_batch :: frame where
  "mixed_case_batch = \<lparr>nrows = 2, cols = [(''Unnamed:_0'', Int64Col [0, 1]),
     (''ID'', Int64Col [10, 11]), (''Age'', Int64Col [50, 60])]\<rparr>"

definition mixed_case_batch_lowered :: frame where
  "mixed_case_batch_lowered = \<lparr>nrows = 2, cols = [(''unnamed:_0'', Int64Col [0, 1]),
     (''id'', Int64Col [10, 11]), (''age'', Int64Col [50, 60])]\<rparr>"

definition mixed_case_batch_normalized :: frame where
  "mixed_case_batch_normalized = \<lparr>nrows = 2, cols = [(''age'', Int64Col [50, 60])]\<rparr>"

definition id_batch :: frame where
  "id_batch = \<lparr>nrows = 2, cols = [(''id'', ObjectCol [OStr ''p1'', OStr ''p2'']),
     (''Age'', Float64Col [Fin 50, NaN])]\<rparr>"

definition id_batch_lowered :: frame where
  "id_batch_lowered = \<lparr>nrows = 2, cols = [(''id'', ObjectCol [OStr ''p1'', OStr ''p2'']),
     (''age'', Float64Col [Fin 50, NaN])]\<rparr>"

definition id_batch_pruned :: frame where
  "id_batch_pruned = \<lparr>nrows = 2, cols = [(''age'', Float64Col [Fin 50, NaN])]\<rparr>"

definition id_batch_normalized :: frame where
  "id_batch_normalized = \<lparr>nrows = 2, cols = [(''age'', Float64Col [Fin 50, Fin 50])]\<rparr>"

text \<open>A batch without rows, as a file holding only the header line gives.\<close>

definition empty_batch :: frame where
  "empty_batch = \<lparr>nrows = 0, cols = [(''age'', ObjectCol [])]\<rparr>"

text \<open>
  Artifacts: an estimator fitted on a plain array (no \<open>feature_names_in_\<close>, not a
  pipeline) that scores every row 0.3 against 0.7; the same estimator fitted on a frame;
  and an estimator without \<open>predict_proba\<close> whose decision output is 2.5 on every row.
\<close>

definition bare_estimator :: artifact where
  "bare_estimator =
     \<lparr>type_name = ''LogisticRegression'', feature_names_in = None, named_steps = None,
      has_get_params = True,
      predict_proba = Some (\<lambda>f. Inr [replicate (nrows f) (Fin 0.3), replicate (nrows f) (Fin 0.7)]),
      predict = (\<lambda>f. Inr (replicate (nrows f) (Fin 1)))\<rparr>"

definition named_estimator :: artifact where
  "named_estimator = bare_estimator\<lparr>feature_names_in := Some [''age'']\<rparr>"

definition score_estimator :: artifact where
  "score_estimator =
     \<lparr>type_name = ''LinearSVC'', feature_names_in = Some [''age''], named_steps = None,
      has_get_params = True, predict_proba = None,
      predict = (\<lambda>f. Inr (replicate (nrows f) (Fin 2.5)))\<rparr>"

definition loaded :: "artifact \<Rightarrow> HeartAttackModel" where
  "loaded a = \<lparr>model_path = ''models/best_model.pkl'', model = a, feature_names = [''age'']\<rparr>"

section \<open>Properties of the series operations\<close>

lemma notna_Fin: "notna (map Fin ys) = ys"
  by (induction ys) simp_all

lemma filter_gt_Fin: "length (filter (\<lambda>p. gt p c) (map Fin ys)) = length (filter (\<lambda>y. y > c) ys)"
  by (induction ys) simp_all

lemma filter_le_Fin: "length (filter (\<lambda>p. le p c) (map Fin ys)) = length (filter (\<lambda>y. y \<le> c) ys)"
  by (induction ys) simp_all

lemma fillna_no_NaN: "NaN \<notin> set (fillna xs (Fin v))"
  by (induction xs) (auto simp: fillna_def split: pyfloat.splits)

lemma to_int64_01: "to_int64 0 = 0" "to_int64 1 = 1"
  by (simp_all add: to_int64_def)

lemma to_int64_of_int:
  "- (2 ^ 63) \<le> z \<Longrightarrow> z < 2 ^ 63 \<Longrightarrow> to_int64 (of_int z) = z"
  by (simp add: to_int64_def)

lemma sort_empty_iff: "sort ys = [] \<longleftrightarrow> ys = []"
  by (metis length_0_conv length_sort)

lemma series_median_NaN_iff: "series_median xs = NaN \<longleftrightarrow> notna xs = []"
  by (auto simp: series_median_def Let_def sort_empty_iff)

text \<open>
  \<open>series_median\<close> is the median, \<open>round_half_even\<close> gives the nearest integer and
  the even one of two nearest, and within the int64 range the cast keeps it. The median
  has at least half of the values on either side.
\<close>

lemma notna_present: "notna xs = present xs"
  by (induction xs rule: notna.induct) simp_all

lemma series_median_middle:
  assumes "notna xs \<noteq> []"
  shows "series_median xs = Fin (middle (notna xs))"
proof -
  let ?ys = "notna xs"
  let ?n = "length ?ys"
  have n: "?n \<noteq> 0" using assms by simp
  show ?thesis
  proof (cases "odd ?n")
    case True
    then have "(?n - 1) div 2 = ?n div 2" by presburger
    with True n show ?thesis by (simp add: series_median_def Let_def sort_empty_iff)
  next
    case False
    then have "(?n - 1) div 2 = ?n div 2 - 1" using n by presburger
    with False n show ?thesis by (simp add: series_median_def Let_def sort_empty_iff)
  qed
qed

lemma round_half_even_spec:
  "\<exists>z. round_half_even v = of_int z \<and> \<bar>v - of_int z\<bar> \<le> 1 / 2 \<and>
       (\<bar>v - of_int z\<bar> = 1 / 2 \<longrightarrow> even z)"
proof -
  have fl: "of_int \<lfloor>v\<rfloor> \<le> v" "v < of_int \<lfloor>v\<rfloor> + 1" by linarith+
  consider "v - of_int \<lfloor>v\<rfloor> < 1 / 2" | "1 / 2 < v - of_int \<lfloor>v\<rfloor>"
    | "v - of_int \<lfloor>v\<rfloor> = 1 / 2" "even \<lfloor>v\<rfloor>" | "v - of_int \<lfloor>v\<rfloor> = 1 / 2" "odd \<lfloor>v\<rfloor>"
    by linarith
  then show ?thesis
  proof cases
    case 1
    then show ?thesis using fl
      by (intro exI [of _ "\<lfloor>v\<rfloor>"]) (simp add: round_half_even_def Let_def)
  next
    case 2
    then show ?thesis using fl
      by (intro exI [of _ "\<lfloor>v\<rfloor> + 1"]) (simp add: round_half_even_def Let_def)
  next
    case 3
    then show ?thesis using fl
      by (intro exI [of _ "\<lfloor>v\<rfloor>"]) (simp add: round_half_even_def Let_def)
  next
    case 4
    then show ?thesis using fl
      by (intro exI [of _ "\<lfloor>v\<rfloor> + 1"]) (simp add: round_half_even_def Let_def)
  qed
qed

lemma nearest_even_unique:
  fixes v :: real and z w :: int
  assumes "\<bar>v - of_int z\<bar> \<le> 1 / 2" "\<bar>v - of_int z\<bar> = 1 / 2 \<longrightarrow> even z"
    and "\<bar>v - of_int w\<bar> \<le> 1 / 2" "\<bar>v - of_int w\<bar> = 1 / 2 \<longrightarrow> even w"
  shows "z = w"
proof (rule ccontr)
  assume ne: "z \<noteq> w"
  have "\<bar>real_of_int z - real_of_int w\<bar> \<le> 1" using assms(1,3) by linarith
  then have "\<bar>z - w\<bar> \<le> 1" by linarith
  with ne have d: "\<bar>z - w\<bar> = 1" by linarith
  then have "\<bar>real_of_int z - real_of_int w\<bar> = 1" by linarith
  then have "\<bar>v - of_int z\<bar> = 1 / 2" "\<bar>v - of_int w\<bar> = 1 / 2" using assms(1,3) by linarith+
  then have "even z" "even w" using assms(2,4) by simp_all
  then have "even (z - w)" by simp
  with d show False by presburger
qed

lemma to_int64_round_half_even:
  assumes "- (2 ^ 63) \<le> v" "v \<le> 2 ^ 63 - 1"
  shows "\<bar>v - of_int (to_int64 (round_half_even v))\<bar> \<le> 1 / 2 \<and>
         (\<bar>v - of_int (to_int64 (round_half_even v))\<bar> = 1 / 2 \<longrightarrow>
            even (to_int64 (round_half_even v)))"
proof -
  obtain z where z: "round_half_even v = of_int z" "\<bar>v - of_int z\<bar> \<le> 1 / 2"
    "\<bar>v - of_int z\<bar> = 1 / 2 \<longrightarrow> even z"
    using round_half_even_spec by blast
  have "real_of_int z \<ge> - (2 ^ 63) - 1 / 2" "real_of_int z \<le> 2 ^ 63 - 1 / 2"
    using z(2) assms by linarith+
  then have "real_of_int z > real_of_int (- (2 ^ 63) - 1)" "real_of_int z < real_of_int (2 ^ 63)"
    by simp_all
  then have "- (2 ^ 63) - 1 < z" "z < 2 ^ 63" by linarith+
  then have "to_int64 (of_int z) = z" by (intro to_int64_of_int) linarith+
  then show ?thesis using z by simp
qed

lemma middle_is_median:
  assumes "ys \<noteq> []"
  shows "length ys \<le> 2 * length (filter (\<lambda>y. y \<le> middle ys) ys)
       \<and> length ys \<le> 2 * length (filter (\<lambda>y. middle ys \<le> y) ys)"
proof -
  let ?zs = "sort ys"
  let ?n = "length ys"
  let ?a = "(?n - 1) div 2"
  let ?b = "?n div 2"
  let ?m = "middle ys"
  have n: "0 < ?n" using assms by simp
  have len: "length ?zs = ?n" by simp
  have ab: "?a \<le> ?b" "?b < ?n" using n by auto
  have sorted: "sorted ?zs" by simp
  have lohi: "?zs ! ?a \<le> ?zs ! ?b"
    using sorted ab len by (simp add: sorted_nth_mono)
  have lo: "?zs ! ?a \<le> ?m" and hi: "?m \<le> ?zs ! ?b" using lohi by simp_all
  have cnt: "length (filter P ys) = length (filter P ?zs)" for P :: "real \<Rightarrow> bool"
    by (simp add: filter_sort)
  have low: "\<forall>z \<in> set (take (Suc ?a) ?zs). z \<le> ?m"
  proof
    fix z assume "z \<in> set (take (Suc ?a) ?zs)"
    then obtain i where i: "i < Suc ?a" "i < ?n" "z = ?zs ! i"
      by (auto simp: in_set_conv_nth)
    then have "?zs ! i \<le> ?zs ! ?a" using sorted ab len by (simp add: sorted_nth_mono)
    then show "z \<le> ?m" using i lo by simp
  qed
  have high: "\<forall>z \<in> set (drop ?b ?zs). ?m \<le> z"
  proof
    fix z assume "z \<in> set (drop ?b ?zs)"
    then obtain i where i: "i < ?n - ?b" "z = ?zs ! (?b + i)"
      by (auto simp: in_set_conv_nth)
    then have "?zs ! ?b \<le> ?zs ! (?b + i)" using sorted len by (simp add: sorted_nth_mono)
    then show "?m \<le> z" using i hi by simp
  qed
  have split: "?zs = take (Suc ?a) ?zs @ drop (Suc ?a) ?zs" "?zs = take ?b ?zs @ drop ?b ?zs"
    by simp_all
  have "length (filter (\<lambda>y. y \<le> ?m) ?zs) \<ge> length (filter (\<lambda>y. y \<le> ?m) (take (Suc ?a) ?zs))"
    by (subst (2) split(1)) (simp del: append_take_drop_id)
  moreover have "filter (\<lambda>y. y \<le> ?m) (take (Suc ?a) ?zs) = take (Suc ?a) ?zs"
    using low by (simp add: filter_id_conv)
  moreover have "length (take (Suc ?a) ?zs) = Suc ?a" using ab len by simp
  ultimately have c1: "Suc ?a \<le> length (filter (\<lambda>y. y \<le> ?m) ys)" by (simp add: cnt del: length_take)
  have "length (filter (\<lambda>y. ?m \<le> y) ?zs) \<ge> length (filter (\<lambda>y. ?m \<le> y) (drop ?b ?zs))"
    by (subst (2) split(2)) (simp del: append_take_drop_id)
  moreover have "filter (\<lambda>y. ?m \<le> y) (drop ?b ?zs) = drop ?b ?zs"
    using high by (simp add: filter_id_conv)
  moreover have "length (drop ?b ?zs) = ?n - ?b" using len by simp
  ultimately have c2: "?n - ?b \<le> length (filter (\<lambda>y. ?m \<le> y) ys)" by (simp add: cnt del: length_drop)
  have "?n \<le> 2 * Suc ?a" "?n \<le> 2 * (?n - ?b)" using n by presburger+
  then show ?thesis using c1 c2 by linarith
qed

lemma NaN_in_round_fillna:
  "NaN \<in> set (series_round (fillna xs v)) \<longleftrightarrow> NaN \<in> set xs \<and> v = NaN"
  by (induction xs) (auto simp: series_round_def fillna_def split: pyfloat.splits)

lemma gender_map_range: "map_of gender_map s = Some n \<Longrightarrow> n = 0 \<or> n = 1"
  by (simp add: gender_map_def split: if_splits)

lemma gender_chain:
  "astype_int (fillna (series_map gender_map (map str_lower (map py_str vs))) (Fin 0)) =
   Inr (map gender_code vs)"
proof -
  have "NaN \<notin> set (fillna (series_map gender_map (map str_lower (map py_str vs))) (Fin 0))"
    by (rule fillna_no_NaN)
  moreover have "map (\<lambda>x. case x of NaN \<Rightarrow> 0 | Fin r \<Rightarrow> to_int64 r)
      (fillna (series_map gender_map (map str_lower (map py_str vs))) (Fin 0)) = map gender_code vs"
    by (induction vs)
       (auto simp: fillna_def series_map_def gender_code_def to_int64_01
             split: option.splits dest: gender_map_range)
  ultimately show ?thesis by (simp add: astype_int_def)
qed

text \<open>
  When the cast after \<open>fillna(v).round()\<close> succeeds, a missing value was present only
  if \<open>v\<close> is a number, and every value was rounded and cast.
\<close>

lemma astype_round_fillna:
  assumes "astype_int (series_round (fillna xs v)) = Inr ns"
  shows "\<exists>m. (NaN \<in> set xs \<longrightarrow> v = Fin m) \<and>
             ns = map (\<lambda>x. to_int64 (round_half_even (case x of NaN \<Rightarrow> m | Fin r \<Rightarrow> r))) xs"
proof -
  have no: "NaN \<notin> set (series_round (fillna xs v))"
    using assms by (auto simp: astype_int_def split: if_splits)
  have ns: "ns = map (\<lambda>x. case x of NaN \<Rightarrow> 0 | Fin r \<Rightarrow> to_int64 r) (series_round (fillna xs v))"
    using assms by (auto simp: astype_int_def split: if_splits)
  show ?thesis
  proof (cases v)
    case NaN
    then have "NaN \<notin> set xs"
      using no by (auto simp: series_round_def fillna_def image_iff split: pyfloat.splits)
    then have "ns = map (\<lambda>x. to_int64 (round_half_even (case x of NaN \<Rightarrow> 0 | Fin r \<Rightarrow> r))) xs"
      unfolding ns by (induction xs) (auto simp: series_round_def fillna_def split: pyfloat.splits)
    with \<open>NaN \<notin> set xs\<close> show ?thesis by blast
  next
    case (Fin m)
    have "ns = map (\<lambda>x. to_int64 (round_half_even (case x of NaN \<Rightarrow> m | Fin r \<Rightarrow> r))) xs"
      unfolding ns Fin by (induction xs) (auto simp: series_round_def fillna_def split: pyfloat.splits)
    with Fin show ?thesis by blast
  qed
qed

section \<open>Properties of the frame operations\<close>

lemma getitem_labelled:
  "getitem f name =
     (case labelled f name of [] \<Rightarrow> Inl KeyError | [c] \<Rightarrow> Inr (Series c)
      | c # d # cs \<Rightarrow> Inr (SubFrame (c # d # cs)))"
  by (simp add: getitem_def labelled_def)

lemma labelled_empty_iff: "labelled f name = [] \<longleftrightarrow> name \<notin> set (columns f)"
  by (auto simp: labelled_def columns_def filter_empty_conv)

lemma getitem_Inr_columns: "getitem f name = Inr s \<Longrightarrow> name \<in> set (columns f)"
  using labelled_empty_iff [of f name]
  by (auto simp: getitem_labelled split: list.splits)

lemma getitem_Series_iff: "getitem f name = Inr (Series c) \<longleftrightarrow> labelled f name = [c]"
  by (auto simp: getitem_labelled split: list.splits)

lemma getitem_Series_member: "getitem f name = Inr (Series c) \<Longrightarrow> c \<in> snd ` set (cols f)"
  by (auto simp: getitem_Series_iff labelled_def map_eq_Cons_conv filter_eq_Cons_iff)

lemma columns_setitem: "name \<in> set (columns f) \<Longrightarrow> columns (setitem f name c) = columns f"
  by (auto simp: setitem_def columns_def)

lemma nrows_setitem: "nrows (setitem f name c) = nrows f"
  by (simp add: setitem_def)

lemma assoc_replace_other:
  "m \<noteq> name \<Longrightarrow>
   map snd (filter (\<lambda>q. fst q = m) (map (\<lambda>p. if fst p = name then (name, c) else p) xs)) =
   map snd (filter (\<lambda>q. fst q = m) xs)"
  by (induction xs) auto

lemma assoc_replace_same:
  "map snd (filter (\<lambda>q. fst q = name) (map (\<lambda>p. if fst p = name then (name, c) else p) xs)) =
   map (\<lambda>_. c) (map snd (filter (\<lambda>q. fst q = name) xs))"
  by (induction xs) auto

lemma labelled_setitem_other: "m \<noteq> name \<Longrightarrow> labelled (setitem f name c) m = labelled f m"
  by (simp add: setitem_def labelled_def assoc_replace_other)

lemma labelled_setitem_same:
  assumes "labelled f name = [old]"
  shows "labelled (setitem f name c) name = [c]"
proof -
  have "name \<in> set (columns f)"
    using assms labelled_empty_iff [of f name] by auto
  then have "labelled (setitem f name c) name = map (\<lambda>_. c) (labelled f name)"
    by (simp add: setitem_def labelled_def assoc_replace_same)
  then show ?thesis using assms by simp
qed

lemma columns_lower_columns: "columns (lower_columns f) = map str_lower (columns f)"
  by (simp add: lower_columns_def columns_def)

lemma nrows_lower_columns: "nrows (lower_columns f) = nrows f"
  by (simp add: lower_columns_def)

lemma columns_prune: "columns (prune f) = filter (\<lambda>n. n \<notin> set drop_cols) (columns f)"
  by (simp add: prune_def columns_def filter_map comp_def)

lemma labelled_prune: "m \<notin> set drop_cols \<Longrightarrow> labelled (prune f) m = labelled f m"
  by (auto simp: prune_def labelled_def intro!: arg_cong [where f = "map snd"] filter_cong)

section \<open>The steps of \<open>preprocess_data\<close>\<close>

subsection \<open>Gender\<close>

lemma encode_gender_columns:
  "encode_gender f = Inr g \<Longrightarrow> columns g = columns f \<and> nrows g = nrows f"
  apply (simp add: encode_gender_def split: if_splits sum.splits)
  subgoal for s
    by (cases "(f, s)" rule: encode_gender_sel.cases)
       (auto simp: columns_setitem nrows_setitem split: sum.splits)
  done

lemma encode_gender_other:
  "encode_gender f = Inr g \<Longrightarrow> m \<noteq> ''gender'' \<Longrightarrow> labelled g m = labelled f m"
  apply (simp add: encode_gender_def split: if_splits sum.splits)
  subgoal for s
    by (cases "(f, s)" rule: encode_gender_sel.cases)
       (auto simp: labelled_setitem_other split: sum.splits)
  done

lemma encode_gender_object:
  assumes "labelled f ''gender'' = [ObjectCol vs]" "encode_gender f = Inr g"
  shows "labelled g ''gender'' = [Int64Col (map gender_code vs)]"
proof -
  have in_cols: "''gender'' \<in> set (columns f)"
    using assms(1) labelled_empty_iff [of f "''gender''"] by auto
  have get: "getitem f ''gender'' = Inr (Series (ObjectCol vs))"
    using assms(1) by (simp add: getitem_Series_iff)
  have "g = setitem f ''gender'' (Int64Col (map gender_code vs))"
    using assms(2) in_cols get by (simp add: encode_gender_def gender_chain del: map_map)
  then show ?thesis using assms(1) by (simp add: labelled_setitem_same)
qed

subsection \<open>The loop over the binary columns\<close>

lemma distinct_binary_cols: "distinct binary_cols"
  by (simp add: binary_cols_def)

lemma binary_not_dropped: "name \<in> set binary_cols \<Longrightarrow> name \<notin> set drop_cols"
  by (auto simp: binary_cols_def drop_cols_def)

lemma binary_not_gender: "name \<in> set binary_cols \<Longrightarrow> name \<noteq> ''gender''"
  by (auto simp: binary_cols_def)

lemma coerce_binary_other:
  "coerce_binary f col s = Inr g \<Longrightarrow> m \<noteq> col \<Longrightarrow> labelled g m = labelled f m"
  by (cases "(f, col, s)" rule: coerce_binary.cases)
     (auto simp: labelled_setitem_other split: sum.splits)

lemma coerce_binary_columns:
  "col \<in> set (columns f) \<Longrightarrow> coerce_binary f col s = Inr g \<Longrightarrow>
   columns g = columns f \<and> nrows g = nrows f"
  by (cases "(f, col, s)" rule: coerce_binary.cases)
     (auto simp: columns_setitem nrows_setitem split: sum.splits)

lemma coerce_binary_not_float:
  "labelled f col = [c] \<Longrightarrow> \<not> is_float c \<Longrightarrow> coerce_binary f col (Series c) = Inr f"
  by (cases c) simp_all

text \<open>
  The body of the loop raises on a float64 column exactly when all its values are
  missing: the median is then NaN and the cast to integer fails.
\<close>

lemma coerce_binary_raises_iff:
  "coerce_binary f col (Series (Float64Col xs)) = Inl e \<longleftrightarrow>
     e = ValueError \<and> NaN \<in> set xs \<and> notna xs = []"
  by (auto simp: astype_int_def NaN_in_round_fillna series_median_NaN_iff split: sum.splits)

lemma binary_loop_columns:
  "binary_loop cs f = Inr g \<Longrightarrow> columns g = columns f \<and> nrows g = nrows f"
proof (induction cs arbitrary: f)
  case Nil
  then show ?case by simp
next
  case (Cons col rest)
  show ?case
  proof (cases "col \<in> set (columns f)")
    case False
    with Cons show ?thesis by simp
  next
    case True
    with Cons.prems obtain s f' where
      "getitem f col = Inr s" "coerce_binary f col s = Inr f'" "binary_loop rest f' = Inr g"
      by (auto split: sum.splits)
    with True Cons.IH [of f'] coerce_binary_columns [of col f s f'] show ?thesis by simp
  qed
qed

lemma binary_loop_other:
  "binary_loop cs f = Inr g \<Longrightarrow> m \<notin> set cs \<Longrightarrow> labelled g m = labelled f m"
proof (induction cs arbitrary: f)
  case Nil
  then show ?case by simp
next
  case (Cons col rest)
  show ?case
  proof (cases "col \<in> set (columns f)")
    case False
    with Cons show ?thesis by simp
  next
    case True
    with Cons.prems obtain s f' where
      "getitem f col = Inr s" "coerce_binary f col s = Inr f'" "binary_loop rest f' = Inr g"
      by (auto split: sum.splits)
    with Cons.prems Cons.IH [of f'] coerce_binary_other [of f col s f' m] show ?thesis by simp
  qed
qed

lemma binary_loop_not_float:
  "binary_loop cs f = Inr g \<Longrightarrow> labelled f m = [c] \<Longrightarrow> \<not> is_float c \<Longrightarrow> labelled g m = [c]"
proof (induction cs arbitrary: f)
  case Nil
  then show ?case by simp
next
  case (Cons col rest)
  show ?case
  proof (cases "col \<in> set (columns f)")
    case False
    with Cons show ?thesis by simp
  next
    case True
    with Cons.prems obtain s f' where
      s: "getitem f col = Inr s" "coerce_binary f col s = Inr f'" "binary_loop rest f' = Inr g"
      by (auto split: sum.splits)
    have "labelled f' m = [c]"
    proof (cases "m = col")
      case True
      then have "s = Series c" using s(1) Cons.prems(2) by (simp add: getitem_labelled)
      then have "f' = f" using s(2) Cons.prems(2,3) True coerce_binary_not_float [of f col c] by simp
      then show ?thesis using Cons.prems(2) by simp
    next
      case False
      then show ?thesis using s(2) Cons.prems(2) coerce_binary_other [of f col s f' m] by simp
    qed
    then show ?thesis using Cons.IH [of f'] s(3) Cons.prems(3) by simp
  qed
qed

lemma binary_loop_float:
  "binary_loop cs f = Inr g \<Longrightarrow> distinct cs \<Longrightarrow> m \<in> set cs \<Longrightarrow>
   labelled f m = [Float64Col xs] \<Longrightarrow>
   \<exists>ns. astype_int (series_round (fillna xs (series_median xs))) = Inr ns \<and>
        labelled g m = [Int64Col ns]"
proof (induction cs arbitrary: f)
  case Nil
  then show ?case by simp
next
  case (Cons col rest)
  show ?case
  proof (cases "m = col")
    case True
    have in_cols: "col \<in> set (columns f)"
      using Cons.prems(4) True labelled_empty_iff [of f m] by auto
    have get: "getitem f col = Inr (Series (Float64Col xs))"
      using Cons.prems(4) True by (simp add: getitem_Series_iff)
    from Cons.prems(1) in_cols get obtain ns where
      ns: "astype_int (series_round (fillna xs (series_median xs))) = Inr ns"
      and rest: "binary_loop rest (setitem f col (Int64Col ns)) = Inr g"
      by (auto split: sum.splits)
    have "m \<notin> set rest" using Cons.prems(2) True by simp
    then have "labelled g m = labelled (setitem f col (Int64Col ns)) m"
      using rest binary_loop_other by blast
    then show ?thesis using ns True Cons.prems(4) by (simp add: labelled_setitem_same)
  next
    case False
    then have m_rest: "m \<in> set rest" using Cons.prems(3) by simp
    show ?thesis
    proof (cases "col \<in> set (columns f)")
      case False
      with Cons.prems Cons.IH [of f] m_rest show ?thesis by simp
    next
      case True
      with Cons.prems(1) obtain s f' where
        s: "getitem f col = Inr s" "coerce_binary f col s = Inr f'" "binary_loop rest f' = Inr g"
        by (auto split: sum.splits)
      have "labelled f' m = [Float64Col xs]"
        using s(2) \<open>m \<noteq> col\<close> Cons.prems(4) coerce_binary_other [of f col s f' m] by simp
      then show ?thesis using Cons.IH [of f'] s(3) Cons.prems(2) m_rest by simp
    qed
  qed
qed

subsection \<open>The loop over the numeric columns\<close>

lemma impute_other:
  "impute f col s = Inr g \<Longrightarrow> m \<noteq> col \<Longrightarrow> labelled g m = labelled f m"
  by (cases "(f, col, s)" rule: impute.cases)
     (auto simp: labelled_setitem_other split: if_splits)

lemma impute_columns:
  "col \<in> set (columns f) \<Longrightarrow> impute f col s = Inr g \<Longrightarrow>
   columns g = columns f \<and> nrows g = nrows f"
  by (cases "(f, col, s)" rule: impute.cases)
     (auto simp: columns_setitem nrows_setitem split: if_splits)

lemma impute_not_float:
  "\<not> is_float c \<Longrightarrow> impute f col (Series c) = Inr f"
  by (cases c) simp_all

lemma numeric_loop_columns:
  "numeric_loop cs f = Inr g \<Longrightarrow> columns g = columns f \<and> nrows g = nrows f"
proof (induction cs arbitrary: f)
  case Nil
  then show ?case by simp
next
  case (Cons col rest)
  then obtain s f' where
    s: "getitem f col = Inr s" "impute f col s = Inr f'" "numeric_loop rest f' = Inr g"
    by (auto split: sum.splits)
  then have "col \<in> set (columns f)" by (simp add: getitem_Inr_columns)
  with s Cons.IH [of f'] impute_columns [of col f s f'] show ?case by simp
qed

lemma numeric_loop_not_float:
  "numeric_loop cs f = Inr g \<Longrightarrow> labelled f m = [c] \<Longrightarrow> \<not> is_float c \<Longrightarrow> labelled g m = [c]"
proof (induction cs arbitrary: f)
  case Nil
  then show ?case by simp
next
  case (Cons col rest)
  then obtain s f' where
    s: "getitem f col = Inr s" "impute f col s = Inr f'" "numeric_loop rest f' = Inr g"
    by (auto split: sum.splits)
  have "labelled f' m = [c]"
  proof (cases "m = col")
    case True
    then have "s = Series c" using s(1) Cons.prems(2) by (simp add: getitem_labelled)
    then have "f' = f" using s(2) Cons.prems(3) impute_not_float [of c f col] by simp
    then show ?thesis using Cons.prems(2) by simp
  next
    case False
    then show ?thesis using s(2) Cons.prems(2) impute_other [of f col s f' m] by simp
  qed
  then show ?case using Cons.IH [of f'] s(3) Cons.prems(3) by simp
qed

subsection \<open>The whole function\<close>

lemma drop_present_only:
  "filter (\<lambda>q. fst q \<notin> set [c \<leftarrow> ds. c \<in> set (map fst xs)]) xs = filter (\<lambda>q. fst q \<notin> set ds) xs"
  by (rule filter_cong) auto

lemma drop_step: "drop_columns f [col \<leftarrow> drop_cols. col \<in> set (columns f)] True = Inr (prune f)"
proof -
  have "filter (\<lambda>q. fst q \<notin> set [col \<leftarrow> drop_cols. col \<in> set (map fst (cols f))]) (cols f) =
        filter (\<lambda>q. fst q \<notin> set drop_cols) (cols f)"
    by (rule drop_present_only)
  then show ?thesis
    unfolding drop_columns_def prune_def columns_def by simp
qed

lemma copy_lower:
  "set_columns (st @ [f]) (length st) (map str_lower (columns f)) = st @ [lower_columns f]"
  by (simp add: set_columns_def lower_columns_def)

lemma store_last: "(st @ [a, b]) ! Suc (length st) = b"
  by (simp add: nth_append)

lemma store_update_last: "(st @ [a, b])[Suc (length st) := c] = st @ [a, c]"
  by (simp add: list_update_append)

text \<open>
  \<open>preprocess_data\<close> adds two frames to the store, the lower-cased copy and the
  frame it works on, and touches no other.
\<close>

lemma preprocess_data_unfold:
  "preprocess_data st df =
     (let lc = lower_columns (st ! df) in
      case encode_gender (prune lc) of
        Inl e \<Rightarrow> (st @ [lc, prune lc], Inl e)
      | Inr f4 \<Rightarrow>
         (case binary_loop binary_cols f4 of
            Inl e \<Rightarrow> (st @ [lc, f4], Inl e)
          | Inr f5 \<Rightarrow>
             (case numeric_loop (numeric_cols f5) f5 of
                Inl e \<Rightarrow> (st @ [lc, f5], Inl e)
              | Inr f6 \<Rightarrow> (st @ [lc, f6], Inr (Suc (length st))))))"
  by (simp add: preprocess_data_def new_frame_def Let_def copy_lower drop_step
      store_last store_update_last split: sum.splits)

lemma preprocess_data_Inr:
  assumes "preprocess_data st df = (st', Inr p)"
  obtains f4 f5 f6 where
    "encode_gender (prune (lower_columns (st ! df))) = Inr f4"
    "binary_loop binary_cols f4 = Inr f5"
    "numeric_loop (numeric_cols f5) f5 = Inr f6"
    "st' = st @ [lower_columns (st ! df), f6]"
    "p = Suc (length st)"
  using assms unfolding preprocess_data_unfold Let_def
  by (auto split: sum.splits)

lemma preprocess_data_store: "\<exists>ext. fst (preprocess_data st df) = st @ ext"
  unfolding preprocess_data_unfold Let_def by (auto split: sum.splits)

lemma preprocess_data_columns:
  assumes "preprocess_data st df = (st', Inr p)"
  shows "columns (st' ! p) = filter (\<lambda>n. n \<notin> set drop_cols) (map str_lower (columns (st ! df)))"
proof -
  from assms obtain f4 f5 f6 where
    s: "encode_gender (prune (lower_columns (st ! df))) = Inr f4"
       "binary_loop binary_cols f4 = Inr f5"
       "numeric_loop (numeric_cols f5) f5 = Inr f6"
       "st' = st @ [lower_columns (st ! df), f6]" "p = Suc (length st)"
    by (rule preprocess_data_Inr)
  have "st' ! p = f6" using s(4,5) by (simp add: store_last)
  moreover have "columns f6 = columns (prune (lower_columns (st ! df)))"
    using s(1-3) encode_gender_columns binary_loop_columns numeric_loop_columns by metis
  ultimately show ?thesis by (simp add: columns_prune columns_lower_columns)
qed

lemma preprocess_data_run:
  assumes "lower_columns (st ! df) = lc" "prune lc = pr" "encode_gender pr = Inr f4"
    "binary_loop binary_cols f4 = Inr f5" "numeric_loop (numeric_cols f5) f5 = Inr f6"
    "st' = st @ [lc, f6]" "p = Suc (length st)"
  shows "preprocess_data st df = (st', Inr p)"
  using assms by (simp add: preprocess_data_unfold)

subsection \<open>When the function returns\<close>

lemma assoc_single:
  "distinct (map fst xs) \<Longrightarrow> name \<in> fst ` set xs \<Longrightarrow>
   \<exists>c. map snd (filter (\<lambda>q. fst q = name) xs) = [c]"
proof (induction xs)
  case Nil
  then show ?case by simp
next
  case (Cons a xs)
  show ?case
  proof (cases "fst a = name")
    case True
    then have "name \<notin> fst ` set xs" using Cons.prems(1) by auto
    then have "filter (\<lambda>q. fst q = name) xs = []"
      by (auto simp: filter_empty_conv)
    then show ?thesis using True by simp
  next
    case False
    then show ?thesis using Cons by auto
  qed
qed

lemma distinct_labelled:
  "distinct (columns f) \<Longrightarrow> name \<in> set (columns f) \<Longrightarrow> \<exists>c. labelled f name = [c]"
  unfolding columns_def labelled_def using assoc_single [of "cols f" name] by simp

lemma encode_gender_returns:
  assumes "distinct (columns f)"
  shows "\<exists>g. encode_gender f = Inr g"
proof (cases "''gender'' \<in> set (columns f)")
  case False
  then show ?thesis by (simp add: encode_gender_def)
next
  case True
  then obtain c where "labelled f ''gender'' = [c]"
    using assms distinct_labelled by blast
  then have "getitem f ''gender'' = Inr (Series c)" by (simp add: getitem_Series_iff)
  then show ?thesis using True
    by (cases c) (simp_all add: encode_gender_def gender_chain del: map_map)
qed

lemma coerce_binary_returns:
  assumes "\<forall>xs. c = Float64Col xs \<longrightarrow> NaN \<in> set xs \<longrightarrow> notna xs \<noteq> []"
  shows "\<exists>g. coerce_binary f col (Series c) = Inr g"
proof (cases c)
  case (Float64Col xs)
  then have "\<not> (\<exists>e. coerce_binary f col (Series c) = Inl e)"
    using assms coerce_binary_raises_iff [of f col xs] by auto
  then show ?thesis by (cases "coerce_binary f col (Series c)") auto
qed simp_all

lemma binary_loop_returns:
  "distinct (columns f) \<Longrightarrow> distinct cs \<Longrightarrow>
   (\<forall>name \<in> set cs. \<forall>xs. labelled f name = [Float64Col xs] \<longrightarrow> NaN \<in> set xs \<longrightarrow> notna xs \<noteq> []) \<Longrightarrow>
   \<exists>g. binary_loop cs f = Inr g"
proof (induction cs arbitrary: f)
  case Nil
  then show ?case by simp
next
  case (Cons col rest)
  show ?case
  proof (cases "col \<in> set (columns f)")
    case False
    then show ?thesis using Cons by simp
  next
    case True
    then obtain c where c: "labelled f col = [c]"
      using Cons.prems(1) distinct_labelled by blast
    then have get: "getitem f col = Inr (Series c)" by (simp add: getitem_Series_iff)
    have "\<forall>xs. c = Float64Col xs \<longrightarrow> NaN \<in> set xs \<longrightarrow> notna xs \<noteq> []"
      using Cons.prems(3) c by simp
    then obtain f' where f': "coerce_binary f col (Series c) = Inr f'"
      using coerce_binary_returns by blast
    have cols: "columns f' = columns f"
      using coerce_binary_columns [OF True f'] by simp
    have "\<forall>name \<in> set rest. labelled f' name = labelled f name"
      using coerce_binary_other [OF f'] Cons.prems(2) by (metis distinct.simps(2))
    then have "\<exists>g. binary_loop rest f' = Inr g"
      using Cons.IH [of f'] Cons.prems cols by simp
    then show ?thesis using True get f' by simp
  qed
qed

lemma impute_returns: "\<exists>g. impute f col (Series c) = Inr g"
  by (cases c) simp_all

lemma numeric_loop_returns:
  "distinct (columns f) \<Longrightarrow> set cs \<subseteq> set (columns f) \<Longrightarrow> \<exists>g. numeric_loop cs f = Inr g"
proof (induction cs arbitrary: f)
  case Nil
  then show ?case by simp
next
  case (Cons col rest)
  then have in_cols: "col \<in> set (columns f)" by simp
  then obtain c where "labelled f col = [c]"
    using Cons.prems(1) distinct_labelled by blast
  then have get: "getitem f col = Inr (Series c)" by (simp add: getitem_Series_iff)
  obtain f' where f': "impute f col (Series c) = Inr f'"
    using impute_returns by blast
  have "columns f' = columns f"
    using impute_columns [OF in_cols f'] by simp
  then have "\<exists>g. numeric_loop rest f' = Inr g"
    using Cons.IH [of f'] Cons.prems by simp
  then show ?case using get f' by simp
qed

lemma numeric_cols_subset: "set (numeric_cols f) \<subseteq> set (columns f)"
  by (auto simp: numeric_cols_def columns_def)

text \<open>
  \<open>preprocess_data\<close> returns whenever the lower-cased labels are distinct and no
  float64 column of the fixed set is missing in every row.
\<close>

lemma preprocess_data_returns:
  assumes "distinct (map str_lower (columns (st ! df)))"
    and "\<forall>name \<in> set binary_cols. \<forall>xs.
           getitem (lower_columns (st ! df)) name = Inr (Series (Float64Col xs)) \<longrightarrow>
           NaN \<in> set xs \<longrightarrow> notna xs \<noteq> []"
  shows "\<exists>st' p. preprocess_data st df = (st', Inr p)"
proof -
  let ?lc = "lower_columns (st ! df)"
  have d: "distinct (columns (prune ?lc))"
    using assms(1) by (simp add: columns_prune columns_lower_columns)
  then obtain f4 where f4: "encode_gender (prune ?lc) = Inr f4"
    using encode_gender_returns by blast
  have d4: "distinct (columns f4)" using d encode_gender_columns [OF f4] by simp
  have "\<forall>name \<in> set binary_cols. labelled f4 name = labelled ?lc name"
    using encode_gender_other [OF f4]
    by (simp add: labelled_prune binary_not_dropped binary_not_gender)
  then have "\<forall>name \<in> set binary_cols. \<forall>xs. labelled f4 name = [Float64Col xs] \<longrightarrow>
      NaN \<in> set xs \<longrightarrow> notna xs \<noteq> []"
    using assms(2) by (simp add: getitem_Series_iff)
  then obtain f5 where f5: "binary_loop binary_cols f4 = Inr f5"
    using binary_loop_returns [OF d4 distinct_binary_cols] by blast
  have "distinct (columns f5)" using d4 binary_loop_columns [OF f5] by simp
  then obtain f6 where "numeric_loop (numeric_cols f5) f5 = Inr f6"
    using numeric_loop_returns numeric_cols_subset by blast
  then show ?thesis using f4 f5 by (simp add: preprocess_data_unfold)
qed

lemma cols_lower_columns:
  "cols (lower_columns f) = map (\<lambda>q. (str_lower (fst q), snd q)) (cols f)"
proof -
  have "zip (map g (map fst xs)) (map snd xs) = map (\<lambda>q. (g (fst q), snd q)) xs"
    for g :: "string \<Rightarrow> string" and xs :: "(string \<times> column) list"
    by (induction xs) simp_all
  then show ?thesis by (simp add: lower_columns_def columns_def str_lower_def)
qed

lemma getitem_Series_pair: "getitem f name = Inr (Series c) \<Longrightarrow> (name, c) \<in> set (cols f)"
proof -
  assume "getitem f name = Inr (Series c)"
  then have "map snd (filter (\<lambda>q. fst q = name) (cols f)) = [c]"
    by (simp add: getitem_Series_iff labelled_def)
  then obtain q where "filter (\<lambda>q. fst q = name) (cols f) = [q]" "snd q = c"
    by (auto simp: map_eq_Cons_conv)
  then have "q \<in> set (filter (\<lambda>q. fst q = name) (cols f))" by simp
  then have "q \<in> set (cols f)" "fst q = name" by simp_all
  with \<open>snd q = c\<close> show ?thesis by (metis prod.collapse)
qed

lemma normalizable_returns:
  assumes "normalizable (st ! df)"
  shows "\<exists>st' p. preprocess_data st df = (st', Inr p)"
proof (rule preprocess_data_returns)
  show "distinct (map str_lower (columns (st ! df)))"
    using assms by (simp add: normalizable_def)
  show "\<forall>name \<in> set binary_cols. \<forall>xs.
           getitem (lower_columns (st ! df)) name = Inr (Series (Float64Col xs)) \<longrightarrow>
           NaN \<in> set xs \<longrightarrow> notna xs \<noteq> []"
  proof (intro ballI allI impI)
    fix name xs
    assume name: "name \<in> set binary_cols"
      and get: "getitem (lower_columns (st ! df)) name = Inr (Series (Float64Col xs))"
      and nan: "NaN \<in> set xs"
    from get have "(name, Float64Col xs) \<in> set (cols (lower_columns (st ! df)))"
      by (rule getitem_Series_pair)
    then obtain q where q: "q \<in> set (cols (st ! df))" "str_lower (fst q) = name"
      "snd q = Float64Col xs"
      by (auto simp: cols_lower_columns)
    then have "\<not> all_missing (snd q)"
      using assms name by (auto simp: normalizable_def list_all_iff)
    then show "notna xs \<noteq> []" using q(3) nan by simp
  qed
qed

section \<open>Properties of \<open>predict_batch\<close>\<close>

lemma predict_batch_store: "fst (predict_batch self st df) = fst (preprocess_data st df)"
  by (cases "preprocess_data st df")
     (auto simp: predict_batch_def split: sum.splits)

lemma predict_batch_Inr:
  assumes "predict_batch self st df = (st', Inr r)"
  obtains p preds ids where
    "preprocess_data st df = (st', Inr p)"
    "predictions_of (model self) (st' ! p) = Inr preds"
    "row_ids (st' ! df) = Inr ids"
    "make_result ids preds = Inr r"
  using assms
  by (cases "preprocess_data st df") (auto simp: predict_batch_def split: sum.splits)

lemma make_result_Inr:
  "make_result ids preds = Inr r \<Longrightarrow>
   \<exists>c. ids = Series c \<and> id_column r = c \<and> prediction r = preds \<and>
       col_length c = length preds"
  by (cases "(ids, preds)" rule: make_result.cases) (auto split: if_splits)

lemma predict_batch_run:
  assumes "preprocess_data st df = (st', Inr p)"
    "predictions_of (model self) (st' ! p) = Inr preds"
    "row_ids (st' ! df) = Inr ids"
    "make_result ids preds = Inr r"
  shows "predict_batch self st df = (st', Inr r)"
  using assms by (simp add: predict_batch_def)

section \<open>The examples, evaluated\<close>

lemmas lower_eval = lower_columns_def columns_def str_lower_def char_lower_def

lemmas prune_eval = prune_def drop_cols_def

lemmas gender_eval = encode_gender_def columns_def getitem_def setitem_def gender_map_def
  series_map_def fillna_def astype_int_def to_int64_def str_lower_def char_lower_def

lemmas binary_eval = binary_cols_def columns_def getitem_def setitem_def fillna_def
  series_median_def series_round_def round_half_even_def astype_int_def to_int64_def

lemmas numeric_eval = numeric_cols_def columns_def getitem_def setitem_def fillna_def
  series_median_def

lemma scenario_row_run:
  "preprocess_data [scenario_row] 0 =
     ([scenario_row, scenario_row, scenario_row_normalized], Inr 2)"
proof (rule preprocess_data_run)
  show "lower_columns ([scenario_row] ! 0) = scenario_row"
    by (simp add: scenario_row_def lower_eval)
  show "prune scenario_row = scenario_row"
    by (simp add: scenario_row_def prune_eval)
  show "encode_gender scenario_row = Inr scenario_row_encoded"
    by (simp add: scenario_row_def scenario_row_encoded_def gender_eval)
  show "binary_loop binary_cols scenario_row_encoded = Inr scenario_row_normalized"
    by (simp add: scenario_row_encoded_def scenario_row_normalized_def binary_eval)
  show "numeric_loop (numeric_cols scenario_row_normalized) scenario_row_normalized =
      Inr scenario_row_normalized"
    by (simp add: scenario_row_normalized_def numeric_eval)
qed simp_all

lemma diabetes_batch_run:
  "preprocess_data [diabetes_batch] 0 =
     ([diabetes_batch, diabetes_batch, diabetes_batch_normalized], Inr 2)"
proof (rule preprocess_data_run)
  show "lower_columns ([diabetes_batch] ! 0) = diabetes_batch"
    by (simp add: diabetes_batch_def lower_eval)
  show "prune diabetes_batch = diabetes_batch"
    by (simp add: diabetes_batch_def prune_eval)
  show "encode_gender diabetes_batch = Inr diabetes_batch"
    by (simp add: diabetes_batch_def gender_eval)
  show "binary_loop binary_cols diabetes_batch = Inr diabetes_batch_normalized"
    by (simp add: diabetes_batch_def diabetes_batch_normalized_def binary_eval)
  show "numeric_loop (numeric_cols diabetes_batch_normalized) diabetes_batch_normalized =
      Inr diabetes_batch_normalized"
    by (simp add: diabetes_batch_normalized_def numeric_eval)
qed simp_all

lemma mixed_case_batch_run:
  "preprocess_data [mixed_case_batch] 0 =
     ([mixed_case_batch, mixed_case_batch_lowered, mixed_case_batch_normalized], Inr 2)"
proof (rule preprocess_data_run)
  show "lower_columns ([mixed_case_batch] ! 0) = mixed_case_batch_lowered"
    by (simp add: mixed_case_batch_def mixed_case_batch_lowered_def lower_eval)
  show "prune mixed_case_batch_lowered = mixed_case_batch_normalized"
    by (simp add: mixed_case_batch_lowered_def mixed_case_batch_normalized_def prune_eval)
  show "encode_gender mixed_case_batch_normalized = Inr mixed_case_batch_normalized"
    by (simp add: mixed_case_batch_normalized_def gender_eval)
  show "binary_loop binary_cols mixed_case_batch_normalized = Inr mixed_case_batch_normalized"
    by (simp add: mixed_case_batch_normalized_def binary_eval)
  show "numeric_loop (numeric_cols mixed_case_batch_normalized) mixed_case_batch_normalized =
      Inr mixed_case_batch_normalized"
    by (simp add: mixed_case_batch_normalized_def numeric_eval)
qed simp_all

lemma id_batch_run:
  "preprocess_data [id_batch] 0 = ([id_batch, id_batch_lowered, id_batch_normalized], Inr 2)"
proof (rule preprocess_data_run)
  show "lower_columns ([id_batch] ! 0) = id_batch_lowered"
    by (simp add: id_batch_def id_batch_lowered_def lower_eval)
  show "prune id_batch_lowered = id_batch_pruned"
    by (simp add: id_batch_lowered_def id_batch_pruned_def prune_eval)
  show "encode_gender id_batch_pruned = Inr id_batch_pruned"
    by (simp add: id_batch_pruned_def gender_eval)
  show "binary_loop binary_cols id_batch_pruned = Inr id_batch_pruned"
    by (simp add: id_batch_pruned_def binary_eval)
  show "numeric_loop (numeric_cols id_batch_pruned) id_batch_pruned = Inr id_batch_normalized"
    by (simp add: id_batch_pruned_def id_batch_normalized_def numeric_eval)
qed simp_all

lemma empty_batch_run:
  "preprocess_data [empty_batch] 0 = ([empty_batch, empty_batch, empty_batch], Inr 2)"
proof (rule preprocess_data_run)
  show "lower_columns ([empty_batch] ! 0) = empty_batch"
    by (simp add: empty_batch_def lower_eval)
  show "prune empty_batch = empty_batch"
    by (simp add: empty_batch_def prune_eval)
  show "encode_gender empty_batch = Inr empty_batch"
    by (simp add: empty_batch_def gender_eval)
  show "binary_loop binary_cols empty_batch = Inr empty_batch"
    by (simp add: empty_batch_def binary_eval)
  show "numeric_loop (numeric_cols empty_batch) empty_batch = Inr empty_batch"
    by (simp add: empty_batch_def numeric_eval)
qed simp_all

lemma scenario_row_predict:
  "predict_batch (loaded named_estimator) [scenario_row] 0 =
     ([scenario_row, scenario_row, scenario_row_normalized],
      Inr \<lparr>id_column = Int64Col [0], prediction = [Fin 0.7]\<rparr>)"
proof (rule predict_batch_run)
  show "preprocess_data [scenario_row] 0 =
      ([scenario_row, scenario_row, scenario_row_normalized], Inr 2)"
    by (rule scenario_row_run)
  show "predictions_of (model (loaded named_estimator))
      ([scenario_row, scenario_row, scenario_row_normalized] ! 2) = Inr [Fin 0.7]"
    by (simp add: predictions_of_def column_1_def loaded_def named_estimator_def
        bare_estimator_def
        scenario_row_normalized_def)
  show "row_ids ([scenario_row, scenario_row, scenario_row_normalized] ! 0) =
      Inr (Series (Int64Col [0]))"
    by (simp add: row_ids_def columns_def scenario_row_def)
qed simp

lemma diabetes_batch_predict_proba:
  "predict_batch (loaded named_estimator) [diabetes_batch] 0 =
     ([diabetes_batch, diabetes_batch, diabetes_batch_normalized],
      Inr \<lparr>id_column = Int64Col [0, 1, 2, 3], prediction = [Fin 0.7, Fin 0.7, Fin 0.7, Fin 0.7]\<rparr>)"
proof (rule predict_batch_run)
  show "preprocess_data [diabetes_batch] 0 =
      ([diabetes_batch, diabetes_batch, diabetes_batch_normalized], Inr 2)"
    by (rule diabetes_batch_run)
  show "predictions_of (model (loaded named_estimator))
      ([diabetes_batch, diabetes_batch, diabetes_batch_normalized] ! 2) =
      Inr [Fin 0.7, Fin 0.7, Fin 0.7, Fin 0.7]"
    by (simp add: predictions_of_def column_1_def loaded_def named_estimator_def
        bare_estimator_def
        diabetes_batch_normalized_def eval_nat_numeral)
  show "row_ids ([diabetes_batch, diabetes_batch, diabetes_batch_normalized] ! 0) =
      Inr (Series (Int64Col [0, 1, 2, 3]))"
    by (simp add: row_ids_def columns_def diabetes_batch_def upt_rec)
qed simp

lemma diabetes_batch_predict_score:
  "predict_batch (loaded score_estimator) [diabetes_batch] 0 =
     ([diabetes_batch, diabetes_batch, diabetes_batch_normalized],
      Inr \<lparr>id_column = Int64Col [0, 1, 2, 3], prediction = [Fin 2.5, Fin 2.5, Fin 2.5, Fin 2.5]\<rparr>)"
proof (rule predict_batch_run)
  show "preprocess_data [diabetes_batch] 0 =
      ([diabetes_batch, diabetes_batch, diabetes_batch_normalized], Inr 2)"
    by (rule diabetes_batch_run)
  show "predictions_of (model (loaded score_estimator))
      ([diabetes_batch, diabetes_batch, diabetes_batch_normalized] ! 2) =
      Inr [Fin 2.5, Fin 2.5, Fin 2.5, Fin 2.5]"
    by (simp add: predictions_of_def loaded_def score_estimator_def
        diabetes_batch_normalized_def eval_nat_numeral)
  show "row_ids ([diabetes_batch, diabetes_batch, diabetes_batch_normalized] ! 0) =
      Inr (Series (Int64Col [0, 1, 2, 3]))"
    by (simp add: row_ids_def columns_def diabetes_batch_def upt_rec)
qed simp

lemma mixed_case_batch_predict:
  "predict_batch (loaded named_estimator) [mixed_case_batch] 0 =
     ([mixed_case_batch, mixed_case_batch_lowered, mixed_case_batch_normalized],
      Inr \<lparr>id_column = Int64Col [0, 1], prediction = [Fin 0.7, Fin 0.7]\<rparr>)"
proof -
  have a: "[mixed_case_batch, mixed_case_batch_lowered, mixed_case_batch_normalized] ! 2
      = mixed_case_batch_normalized"
    "[mixed_case_batch, mixed_case_batch_lowered, mixed_case_batch_normalized] ! 0
      = mixed_case_batch" by simp_all
  have b: "predictions_of (model (loaded named_estimator)) mixed_case_batch_normalized
      = Inr [Fin 0.7, Fin 0.7]"
    by (simp add: predictions_of_def column_1_def loaded_def named_estimator_def
        bare_estimator_def
        mixed_case_batch_normalized_def numeral_2_eq_2)
  have c: "row_ids mixed_case_batch = Inr (Series (Int64Col [0, 1]))"
    by (simp add: row_ids_def columns_def mixed_case_batch_def numeral_2_eq_2)
  show ?thesis
    unfolding predict_batch_def mixed_case_batch_run prod.case sum.case a b c
    by simp
qed

lemma id_batch_predict:
  "predict_batch (loaded named_estimator) [id_batch] 0 =
     ([id_batch, id_batch_lowered, id_batch_normalized],
      Inr \<lparr>id_column = ObjectCol [OStr ''p1'', OStr ''p2''], prediction = [Fin 0.7, Fin 0.7]\<rparr>)"
proof (rule predict_batch_run)
  show "preprocess_data [id_batch] 0 = ([id_batch, id_batch_lowered, id_batch_normalized], Inr 2)"
    by (rule id_batch_run)
  show "predictions_of (model (loaded named_estimator))
      ([id_batch, id_batch_lowered, id_batch_normalized] ! 2) = Inr [Fin 0.7, Fin 0.7]"
    by (simp add: predictions_of_def column_1_def loaded_def named_estimator_def
        bare_estimator_def
        id_batch_normalized_def numeral_2_eq_2)
  show "row_ids ([id_batch, id_batch_lowered, id_batch_normalized] ! 0) =
      Inr (Series (ObjectCol [OStr ''p1'', OStr ''p2'']))"
    by (simp add: row_ids_def columns_def getitem_def id_batch_def)
qed simp

lemma empty_batch_predict:
  "predict_batch (loaded named_estimator) [empty_batch] 0 =
     ([empty_batch, empty_batch, empty_batch],
      Inr \<lparr>id_column = Int64Col [], prediction = []\<rparr>)"
proof (rule predict_batch_run)
  show "preprocess_data [empty_batch] 0 = ([empty_batch, empty_batch, empty_batch], Inr 2)"
    by (rule empty_batch_run)
  show "predictions_of (model (loaded named_estimator))
      ([empty_batch, empty_batch, empty_batch] ! 2) = Inr []"
    by (simp add: predictions_of_def column_1_def loaded_def named_estimator_def
        bare_estimator_def empty_batch_def)
  show "row_ids ([empty_batch, empty_batch, empty_batch] ! 0) = Inr (Series (Int64Col []))"
    by (simp add: row_ids_def columns_def empty_batch_def)
qed simp

lemmas normalizable_eval = normalizable_def columns_def str_lower_def char_lower_def
  binary_cols_def

lemma scenario_row_normalizable: "normalizable scenario_row"
  by (simp add: scenario_row_def normalizable_eval)

lemma diabetes_batch_normalizable: "normalizable diabetes_batch"
  by (simp add: diabetes_batch_def normalizable_eval)

lemma mixed_case_batch_normalizable: "normalizable mixed_case_batch"
  by (simp add: mixed_case_batch_def normalizable_eval)

section \<open>What normalization does to the gender and binary columns\<close>

lemma gender_encoding_result:
  assumes "preprocess_data st df = (st', Inr p)"
    and "getitem (lower_columns (st ! df)) ''gender'' = Inr (Series (ObjectCol vs))"
  shows "getitem (st' ! p) ''gender'' =
     Inr (Series (Int64Col (map (\<lambda>v. case map_of gender_map (str_lower (py_str v)) of
                                      Some n \<Rightarrow> n | None \<Rightarrow> 0) vs)))"
proof -
  from assms(1) obtain f4 f5 f6 where
    s: "encode_gender (prune (lower_columns (st ! df))) = Inr f4"
       "binary_loop binary_cols f4 = Inr f5"
       "numeric_loop (numeric_cols f5) f5 = Inr f6"
       "st' = st @ [lower_columns (st ! df), f6]" "p = Suc (length st)"
    by (rule preprocess_data_Inr)
  have "labelled (lower_columns (st ! df)) ''gender'' = [ObjectCol vs]"
    using assms(2) by (simp add: getitem_Series_iff)
  then have "labelled (prune (lower_columns (st ! df))) ''gender'' = [ObjectCol vs]"
    by (simp add: labelled_prune drop_cols_def)
  then have "labelled f4 ''gender'' = [Int64Col (map gender_code vs)]"
    using s(1) by (rule encode_gender_object)
  then have "labelled f5 ''gender'' = [Int64Col (map gender_code vs)]"
    using s(2) binary_loop_not_float by force
  then have "labelled f6 ''gender'' = [Int64Col (map gender_code vs)]"
    using s(3) numeric_loop_not_float by force
  moreover have "st' ! p = f6" using s(4,5) by (simp add: store_last)
  moreover have "gender_code = (\<lambda>v. case map_of gender_map (str_lower (py_str v)) of
                                      Some n \<Rightarrow> n | None \<Rightarrow> 0)"
    by (rule ext) (simp add: gender_code_def)
  ultimately show ?thesis by (simp add: getitem_Series_iff)
qed

lemma binary_coercion_result:
  assumes "preprocess_data st df = (st', Inr p)"
    and "name \<in> set binary_cols"
  shows "(getitem (lower_columns (st ! df)) name = Inr (Series (Float64Col xs)) \<longrightarrow>
            (\<exists>m. (NaN \<in> set xs \<longrightarrow> series_median xs = Fin m) \<and>
                 getitem (st' ! p) name =
                   Inr (Series (Int64Col (map (\<lambda>x. to_int64 (round_half_even
                          (case x of NaN \<Rightarrow> m | Fin r \<Rightarrow> r))) xs)))))
       \<and> (getitem (lower_columns (st ! df)) name = Inr (Series (Int64Col ns)) \<longrightarrow>
            getitem (st' ! p) name = Inr (Series (Int64Col ns)))"
proof -
  from assms(1) obtain f4 f5 f6 where
    s: "encode_gender (prune (lower_columns (st ! df))) = Inr f4"
       "binary_loop binary_cols f4 = Inr f5"
       "numeric_loop (numeric_cols f5) f5 = Inr f6"
       "st' = st @ [lower_columns (st ! df), f6]" "p = Suc (length st)"
    by (rule preprocess_data_Inr)
  have last: "st' ! p = f6" using s(4,5) by (simp add: store_last)
  have start: "labelled f4 name = labelled (lower_columns (st ! df)) name"
    using s(1) assms(2) encode_gender_other [of _ f4 name]
    by (simp add: labelled_prune binary_not_dropped binary_not_gender)
  have float: "\<exists>m. (NaN \<in> set xs \<longrightarrow> series_median xs = Fin m) \<and>
                 getitem (st' ! p) name =
                   Inr (Series (Int64Col (map (\<lambda>x. to_int64 (round_half_even
                          (case x of NaN \<Rightarrow> m | Fin r \<Rightarrow> r))) xs)))"
    if "getitem (lower_columns (st ! df)) name = Inr (Series (Float64Col xs))"
  proof -
    have "labelled f4 name = [Float64Col xs]"
      using that start by (simp add: getitem_Series_iff)
    then obtain zs where
      zs: "astype_int (series_round (fillna xs (series_median xs))) = Inr zs"
      and l5: "labelled f5 name = [Int64Col zs]"
      using binary_loop_float [OF s(2) distinct_binary_cols assms(2)] by blast
    have l6: "labelled f6 name = [Int64Col zs]"
      using s(3) l5 numeric_loop_not_float by force
    from astype_round_fillna [OF zs] obtain m where
      m: "NaN \<in> set xs \<longrightarrow> series_median xs = Fin m"
         "zs = map (\<lambda>x. to_int64 (round_half_even (case x of NaN \<Rightarrow> m | Fin r \<Rightarrow> r))) xs"
      by blast
    have "getitem (st' ! p) name = Inr (Series (Int64Col zs))"
      using l6 last by (simp add: getitem_Series_iff)
    then show ?thesis using m by blast
  qed
  have int: "getitem (st' ! p) name = Inr (Series (Int64Col ns))"
    if "getitem (lower_columns (st ! df)) name = Inr (Series (Int64Col ns))"
  proof -
    have "labelled f4 name = [Int64Col ns]"
      using that start by (simp add: getitem_Series_iff)
    then have "labelled f5 name = [Int64Col ns]"
      using s(2) binary_loop_not_float by force
    then have "labelled f6 name = [Int64Col ns]"
      using s(3) numeric_loop_not_float by force
    then show ?thesis using last by (simp add: getitem_Series_iff)
  qed
  show ?thesis using float int by blast
qed

section \<open>The claims\<close>

subsection \<open>Batch statistics\<close>

text \<open>
  C1 (as amended). For every non-empty sequence of probabilities the statistics record has
  the fields mean, min, max, std, risk_count and no_risk_count: mean, min and max are the
  arithmetic mean, minimum and maximum; std is the sample standard deviation (divisor
  \<open>n - 1\<close>), undefined (NaN) for a one-element sequence; risk_count counts the values
  strictly above 0.5 and no_risk_count those at most 0.5, and the two counts add up to the
  length of the sequence.
\<close>

theorem statistics_fields:
  assumes "ys \<noteq> []"
  shows "statistics (map Fin ys) =
     \<lparr> mean = Fin (sum_list ys / real (length ys)),
       min_v = Fin (Min (set ys)),
       max_v = Fin (Max (set ys)),
       std = (if length ys = 1 then NaN
              else Fin (sqrt (sum_list (map (\<lambda>y. (y - sum_list ys / real (length ys))\<^sup>2) ys)
                          / real (length ys - 1)))),
       risk_count = length (filter (\<lambda>y. y > 0.5) ys),
       no_risk_count = length (filter (\<lambda>y. y \<le> 0.5) ys) \<rparr>
   \<and> risk_count (statistics (map Fin ys)) + no_risk_count (statistics (map Fin ys)) = length ys"
proof -
  let ?xs = "map Fin ys"
  have one: "length ys \<le> 1 \<longleftrightarrow> length ys = 1" using assms by (cases ys) simp_all
  have m: "series_mean ?xs = Fin (sum_list ys / real (length ys))"
    using assms by (simp add: series_mean_def notna_Fin)
  have mn: "series_min ?xs = Fin (Min (set ys))"
    using assms by (simp add: series_min_def notna_Fin)
  have mx: "series_max ?xs = Fin (Max (set ys))"
    using assms by (simp add: series_max_def notna_Fin)
  have sd: "series_std ?xs = (if length ys = 1 then NaN
              else Fin (sqrt (sum_list (map (\<lambda>y. (y - sum_list ys / real (length ys))\<^sup>2) ys)
                          / real (length ys - 1))))"
    using one by (auto simp: series_std_def notna_Fin Let_def)
  have r: "length (filter (\<lambda>p. gt p 0.5) ?xs) = length (filter (\<lambda>y. y > 0.5) ys)"
    by (rule filter_gt_Fin)
  have n: "length (filter (\<lambda>p. le p 0.5) ?xs) = length (filter (\<lambda>y. y \<le> 0.5) ys)"
    by (rule filter_le_Fin)
  have part: "length (filter (\<lambda>y. y > (0.5::real)) ys) + length (filter (\<lambda>y. y \<le> 0.5) ys) = length ys"
    using sum_length_filter_compl [of "\<lambda>y. y > (0.5::real)" ys] by (simp add: not_less)
  have rec: "statistics ?xs =
     \<lparr> mean = Fin (sum_list ys / real (length ys)),
       min_v = Fin (Min (set ys)),
       max_v = Fin (Max (set ys)),
       std = (if length ys = 1 then NaN
              else Fin (sqrt (sum_list (map (\<lambda>y. (y - sum_list ys / real (length ys))\<^sup>2) ys)
                          / real (length ys - 1)))),
       risk_count = length (filter (\<lambda>y. y > 0.5) ys),
       no_risk_count = length (filter (\<lambda>y. y \<le> 0.5) ys) \<rparr>"
    unfolding statistics_def m mn mx sd r n ..
  show ?thesis unfolding rec by (intro conjI refl) (simp only: stats.select_convs part)
qed

text \<open>The scenario of the specification: \<open>[0.2, 0.6, 0.9, 0.4]\<close> has mean 0.525,
  minimum 0.2, maximum 0.9, two values above 0.5 and two at most 0.5.\<close>

theorem statistics_fields_witness:
  "[0.2, 0.6, 0.9, 0.4] \<noteq> ([] :: real list) \<and>
   mean (statistics (map Fin [0.2, 0.6, 0.9, 0.4])) = Fin 0.525 \<and>
   min_v (statistics (map Fin [0.2, 0.6, 0.9, 0.4])) = Fin 0.2 \<and>
   max_v (statistics (map Fin [0.2, 0.6, 0.9, 0.4])) = Fin 0.9 \<and>
   risk_count (statistics (map Fin [0.2, 0.6, 0.9, 0.4])) = 2 \<and>
   no_risk_count (statistics (map Fin [0.2, 0.6, 0.9, 0.4])) = 2"
  using statistics_fields [of "[0.2, 0.6, 0.9, 0.4]"] by simp

text \<open>On the same input the std field is not the population standard deviation: the
  source divides the squared deviations by 3, not by 4.\<close>

theorem std_population_counterexample:
  "std (statistics (map Fin [0.2, 0.6, 0.9, 0.4])) \<noteq> Fin (population_std [0.2, 0.6, 0.9, 0.4])"
  by (simp add: statistics_def series_std_def population_std_def power2_eq_square)

subsection \<open>Loading the artifact\<close>

text \<open>
  C2. Loading is claimed never to fail for want of introspection capabilities. The source
  does fail: for an artifact with neither \<open>feature_names_in_\<close> nor \<open>named_steps\<close>
  the test of line 34 reads \<open>self.model.named_steps\<close> and raises \<open>AttributeError\<close>
  before the \<open>else\<close> branch, which would have given the empty feature list, is reached.
  \<open>get_model_info\<close> makes the same unguarded access at line 147: it raises for a loaded
  estimator that has \<open>get_params\<close> and is not a pipeline.
\<close>

theorem load_model_bare_estimator:
  "load_model (\<lambda>path. if path = ''models/best_model.pkl'' then Some (Inr bare_estimator) else None)
     ''models/best_model.pkl'' = Inl AttributeError
   \<and> load_model (\<lambda>path. if path = ''models/best_model.pkl'' then Some (Inr named_estimator) else None)
     ''models/best_model.pkl'' = Inr (loaded named_estimator)
   \<and> get_model_info (loaded named_estimator) = Inl AttributeError"
  by (simp add: load_model_def extract_feature_names_def get_model_info_def
      bare_estimator_def named_estimator_def loaded_def)

subsection \<open>Gender encoding\<close>

text \<open>
  C3. Let the frame, after case folding, have one column \<open>gender\<close> of dtype object.
  Normalization returns when the frame is normalizable, and whenever it returns, the
  column \<open>gender\<close> of the result is the integer column obtained by taking each cell's
  text in lower case through the table \<open>gender_map\<close>, with 0 for every text the table
  does not hold; \<open>None\<close> and NaN are such texts.
\<close>

theorem gender_encoding:
  assumes "getitem (lower_columns (st ! df)) ''gender'' = Inr (Series (ObjectCol vs))"
  shows "(normalizable (st ! df) \<longrightarrow> (\<exists>st' p. preprocess_data st df = (st', Inr p)))
     \<and> (\<forall>st' p. preprocess_data st df = (st', Inr p) \<longrightarrow>
           getitem (st' ! p) ''gender'' =
             Inr (Series (Int64Col (map (\<lambda>v. case map_of gender_map (str_lower (py_str v)) of
                                              Some n \<Rightarrow> n | None \<Rightarrow> 0) vs))))"
  using assms normalizable_returns gender_encoding_result by blast

text \<open>
  The specification's row \<open>{age: 55, cholesterol: 240, heart_rate: 72, gender: "male",
  diabetes: 1.0}\<close> normalizes to gender 0 and diabetes 1; the table at work on each of its
  keys in mixed case, on the two null values and on an unknown text.
\<close>

theorem gender_encoding_witness:
  "normalizable ([scenario_row] ! 0)
   \<and> preprocess_data [scenario_row] 0 =
     ([scenario_row, scenario_row, scenario_row_normalized], Inr 2)
   \<and> getitem (lower_columns ([scenario_row] ! 0)) ''gender'' =
       Inr (Series (ObjectCol [OStr ''male'']))
   \<and> getitem scenario_row_normalized ''gender'' = Inr (Series (Int64Col [0]))
   \<and> getitem scenario_row_normalized ''diabetes'' = Inr (Series (Int64Col [1]))
   \<and> map (\<lambda>v. case map_of gender_map (str_lower (py_str v)) of Some n \<Rightarrow> n | None \<Rightarrow> 0)
       [OStr ''Male'', OStr ''FEMALE'', OStr ''1.0'', OStr ''0.0'', OStr ''1'', OStr ''0'',
        ONone, ONaN, OStr ''other''] = [0, 1, 0, 1, 0, 1, 0, 0, 0]"
proof -
  have g: "getitem (lower_columns ([scenario_row] ! 0)) ''gender'' =
       Inr (Series (ObjectCol [OStr ''male'']))"
    by (simp add: scenario_row_def lower_eval getitem_def)
  have d: "getitem scenario_row_normalized ''diabetes'' = Inr (Series (Int64Col [1]))"
    by (simp add: scenario_row_normalized_def getitem_def)
  have t: "map (\<lambda>v. case map_of gender_map (str_lower (py_str v)) of Some n \<Rightarrow> n | None \<Rightarrow> 0)
       [OStr ''Male'', OStr ''FEMALE'', OStr ''1.0'', OStr ''0.0'', OStr ''1'', OStr ''0'',
        ONone, ONaN, OStr ''other''] = [0, 1, 0, 1, 0, 1, 0, 0, 0]"
    by (simp add: gender_map_def str_lower_def char_lower_def)
  from gender_encoding [OF g] scenario_row_run
  have "getitem scenario_row_normalized ''gender'' = Inr (Series (Int64Col [0]))"
    by (simp add: gender_map_def str_lower_def char_lower_def)
  with scenario_row_normalizable scenario_row_run g d t show ?thesis by simp
qed

subsection \<open>Binary columns\<close>

text \<open>
  C4. Let the label be one of diabetes, family_history, smoking, obesity,
  alcohol_consumption, previous_heart_problems, medication_use. Normalization returns
  when the frame is normalizable. Whenever it returns, a column with that label (once,
  after case folding) of dtype float64 has become an integer column of the same length
  in which every row holds a nearest integer, the even one at a tie, of the row's value,
  or of the median of the column's present values where the row's value is missing (for
  values in the int64 range); a column with a missing value has a present one; and a
  column of dtype int64 is the same in the result.
\<close>

theorem binary_coercion:
  assumes "name \<in> {''diabetes'', ''family_history'', ''smoking'', ''obesity'',
                     ''alcohol_consumption'', ''previous_heart_problems'', ''medication_use''}"
  shows "(normalizable (st ! df) \<longrightarrow> (\<exists>st' p. preprocess_data st df = (st', Inr p)))
     \<and> (\<forall>st' p xs. preprocess_data st df = (st', Inr p) \<longrightarrow>
           getitem (lower_columns (st ! df)) name = Inr (Series (Float64Col xs)) \<longrightarrow>
           (NaN \<in> set xs \<longrightarrow> present xs \<noteq> []) \<and>
           (\<exists>zs. getitem (st' ! p) name = Inr (Series (Int64Col zs)) \<and>
                 length zs = length xs \<and>
                 (\<forall>i v. i < length xs \<longrightarrow>
                    (xs ! i = Fin v \<or> xs ! i = NaN \<and> v = middle (present xs)) \<longrightarrow>
                    - (2 ^ 63) \<le> v \<longrightarrow> v \<le> 2 ^ 63 - 1 \<longrightarrow>
                    \<bar>v - of_int (zs ! i)\<bar> \<le> 1 / 2 \<and>
                    (\<bar>v - of_int (zs ! i)\<bar> = 1 / 2 \<longrightarrow> even (zs ! i)))))
     \<and> (\<forall>st' p ns. preprocess_data st df = (st', Inr p) \<longrightarrow>
           getitem (lower_columns (st ! df)) name = Inr (Series (Int64Col ns)) \<longrightarrow>
           getitem (st' ! p) name = Inr (Series (Int64Col ns)))"
proof (intro conjI allI impI)
  assume "normalizable (st ! df)"
  then show "\<exists>st' p. preprocess_data st df = (st', Inr p)"
    by (rule normalizable_returns)
next
  fix st' p ns
  assume "preprocess_data st df = (st', Inr p)"
    and "getitem (lower_columns (st ! df)) name = Inr (Series (Int64Col ns))"
  moreover have "name \<in> set binary_cols" using assms by (simp add: binary_cols_def)
  ultimately show "getitem (st' ! p) name = Inr (Series (Int64Col ns))"
    using binary_coercion_result [of st df st' p name _ ns] by blast
next
  fix st' p xs
  assume run: "preprocess_data st df = (st', Inr p)"
    and get: "getitem (lower_columns (st ! df)) name = Inr (Series (Float64Col xs))"
  have nm: "name \<in> set binary_cols" using assms by (simp add: binary_cols_def)
  from binary_coercion_result [OF run nm, of xs] get obtain m where
    m: "NaN \<in> set xs \<longrightarrow> series_median xs = Fin m"
    and res: "getitem (st' ! p) name =
       Inr (Series (Int64Col (map (\<lambda>x. to_int64 (round_half_even
              (case x of NaN \<Rightarrow> m | Fin r \<Rightarrow> r))) xs)))"
    by blast
  have some: "notna xs \<noteq> []" if "NaN \<in> set xs"
    using that m series_median_NaN_iff [of xs] by auto
  then show "present xs \<noteq> []" if "NaN \<in> set xs"
    using that by (simp only: notna_present [symmetric] not_False_eq_True)
  let ?zs = "map (\<lambda>x. to_int64 (round_half_even (case x of NaN \<Rightarrow> m | Fin r \<Rightarrow> r))) xs"
  have near: "\<bar>v - of_int (?zs ! i)\<bar> \<le> 1 / 2 \<and>
        (\<bar>v - of_int (?zs ! i)\<bar> = 1 / 2 \<longrightarrow> even (?zs ! i))"
    if i: "i < length xs"
      and v: "xs ! i = Fin v \<or> xs ! i = NaN \<and> v = middle (present xs)"
      and range: "- (2 ^ 63) \<le> v" "v \<le> 2 ^ 63 - 1" for i v
  proof -
    have "(case xs ! i of NaN \<Rightarrow> m | Fin r \<Rightarrow> r) = v"
    proof (cases "xs ! i")
      case NaN
      then have "NaN \<in> set xs" using i by (metis nth_mem)
      then have sm: "series_median xs = Fin m" and ne: "notna xs \<noteq> []"
        using m some by simp_all
      have "series_median xs = Fin (middle (notna xs))"
      proof (cases "odd (length (notna xs))")
        case True
        then have "(length (notna xs) - 1) div 2 = length (notna xs) div 2" by presburger
        with True ne show ?thesis by (simp add: series_median_def Let_def sort_empty_iff)
      next
        case False
        moreover have "length (notna xs) \<noteq> 0" using ne by simp
        ultimately have "(length (notna xs) - 1) div 2 = length (notna xs) div 2 - 1"
          by presburger
        with False ne show ?thesis by (simp add: series_median_def Let_def sort_empty_iff)
      qed
      with sm have "m = middle (notna xs)" by simp
      then have "m = middle (present xs)" by (simp only: notna_present)
      then show ?thesis using NaN v by simp
    next
      case (Fin r)
      then show ?thesis using v by simp
    qed
    then have zi: "?zs ! i = to_int64 (round_half_even v)" using i by simp
    have fl: "of_int \<lfloor>v\<rfloor> \<le> v" "v < of_int \<lfloor>v\<rfloor> + 1" by linarith+
    consider "v - of_int \<lfloor>v\<rfloor> < 1 / 2" | "1 / 2 < v - of_int \<lfloor>v\<rfloor>"
      | "v - of_int \<lfloor>v\<rfloor> = 1 / 2" "even \<lfloor>v\<rfloor>"
      | "v - of_int \<lfloor>v\<rfloor> = 1 / 2" "odd \<lfloor>v\<rfloor>"
      by linarith
    then obtain z where z: "round_half_even v = of_int z" "\<bar>v - of_int z\<bar> \<le> 1 / 2"
      "\<bar>v - of_int z\<bar> = 1 / 2 \<longrightarrow> even z"
    proof cases
      case 1
      with fl that [of "\<lfloor>v\<rfloor>"] show ?thesis by (simp add: round_half_even_def Let_def)
    next
      case 2
      with fl that [of "\<lfloor>v\<rfloor> + 1"] show ?thesis by (simp add: round_half_even_def Let_def)
    next
      case 3
      with fl that [of "\<lfloor>v\<rfloor>"] show ?thesis by (simp add: round_half_even_def Let_def)
    next
      case 4
      with fl that [of "\<lfloor>v\<rfloor> + 1"] show ?thesis by (simp add: round_half_even_def Let_def)
    qed
    have "real_of_int z \<ge> - (2 ^ 63) - 1 / 2" "real_of_int z \<le> 2 ^ 63 - 1 / 2"
      using z(2) range by linarith+
    then have "real_of_int z > real_of_int (- (2 ^ 63) - 1)" "real_of_int z < real_of_int (2 ^ 63)"
      by simp_all
    then have "- (2 ^ 63) \<le> z" "z < 2 ^ 63" by linarith+
    then have "to_int64 (of_int z) = z" by (simp add: to_int64_def)
    then show ?thesis using z zi by simp
  qed
  show "\<exists>zs. getitem (st' ! p) name = Inr (Series (Int64Col zs)) \<and>
                 length zs = length xs \<and>
                 (\<forall>i v. i < length xs \<longrightarrow>
                    (xs ! i = Fin v \<or> xs ! i = NaN \<and> v = middle (present xs)) \<longrightarrow>
                    - (2 ^ 63) \<le> v \<longrightarrow> v \<le> 2 ^ 63 - 1 \<longrightarrow>
                    \<bar>v - of_int (zs ! i)\<bar> \<le> 1 / 2 \<and>
                    (\<bar>v - of_int (zs ! i)\<bar> = 1 / 2 \<longrightarrow> even (zs ! i)))"
    using res near by (intro exI [of _ ?zs]) (simp only: length_map, blast)
qed

text \<open>
  A batch with fractions and ties: \<open>diabetes = [0.4, NaN, 2.5, 1.5, 0.6]\<close> has the
  median 1.05 and becomes \<open>[0, 1, 2, 2, 1]\<close>; \<open>medication_use = [1, NaN, 0, 0, NaN]\<close>
  has the median 0 and becomes \<open>[1, 0, 0, 0, 0]\<close>; the integer column
  \<open>obesity = [0, 1, 5, 1, 0]\<close> passes through. The specification's batch:
  \<open>diabetes = [1.0, NaN, 0.0, 1.0]\<close> has the median 1 and becomes \<open>[1, 1, 0, 1]\<close>.
\<close>

theorem binary_coercion_witness:
  "normalizable ([rounding_batch] ! 0)
   \<and> preprocess_data [rounding_batch] 0 =
       ([rounding_batch, rounding_batch_lowered, rounding_batch_normalized], Inr 2)
   \<and> getitem (lower_columns ([rounding_batch] ! 0)) ''diabetes'' =
       Inr (Series (Float64Col [Fin 0.4, NaN, Fin 2.5, Fin 1.5, Fin 0.6]))
   \<and> middle (present [Fin 0.4, NaN, Fin 2.5, Fin 1.5, Fin 0.6]) = 1.05
   \<and> getitem rounding_batch_normalized ''diabetes'' = Inr (Series (Int64Col [0, 1, 2, 2, 1]))
   \<and> getitem (lower_columns ([rounding_batch] ! 0)) ''medication_use'' =
       Inr (Series (Float64Col [Fin 1, NaN, Fin 0, Fin 0, NaN]))
   \<and> middle (present [Fin 1, NaN, Fin 0, Fin 0, NaN]) = 0
   \<and> getitem rounding_batch_normalized ''medication_use'' =
       Inr (Series (Int64Col [1, 0, 0, 0, 0]))
   \<and> getitem (lower_columns ([rounding_batch] ! 0)) ''obesity'' =
       Inr (Series (Int64Col [0, 1, 5, 1, 0]))
   \<and> getitem rounding_batch_normalized ''obesity'' = Inr (Series (Int64Col [0, 1, 5, 1, 0]))
   \<and> normalizable ([diabetes_batch] ! 0)
   \<and> preprocess_data [diabetes_batch] 0 =
       ([diabetes_batch, diabetes_batch, diabetes_batch_normalized], Inr 2)
   \<and> getitem (lower_columns ([diabetes_batch] ! 0)) ''diabetes'' =
       Inr (Series (Float64Col [Fin 1, NaN, Fin 0, Fin 1]))
   \<and> middle (present [Fin 1, NaN, Fin 0, Fin 1]) = 1
   \<and> getitem diabetes_batch_normalized ''diabetes'' = Inr (Series (Int64Col [1, 1, 0, 1]))
   \<and> getitem (lower_columns ([diabetes_batch] ! 0)) ''smoking'' =
       Inr (Series (Int64Col [0, 1, 5, 1]))
   \<and> getitem diabetes_batch_normalized ''smoking'' = Inr (Series (Int64Col [0, 1, 5, 1]))"
proof -
  have lr: "lower_columns ([rounding_batch] ! 0) = rounding_batch_lowered"
    by (simp add: rounding_batch_def rounding_batch_lowered_def lower_eval)
  have run: "preprocess_data [rounding_batch] 0 =
       ([rounding_batch, rounding_batch_lowered, rounding_batch_normalized], Inr 2)"
  proof (rule preprocess_data_run)
    show "lower_columns ([rounding_batch] ! 0) = rounding_batch_lowered" by (rule lr)
    show "prune rounding_batch_lowered = rounding_batch_lowered"
      by (simp add: rounding_batch_lowered_def prune_eval)
    show "encode_gender rounding_batch_lowered = Inr rounding_batch_lowered"
      by (simp add: rounding_batch_lowered_def gender_eval)
    show "binary_loop binary_cols rounding_batch_lowered = Inr rounding_batch_normalized"
      by (simp add: rounding_batch_lowered_def rounding_batch_normalized_def binary_eval)
    show "numeric_loop (numeric_cols rounding_batch_normalized) rounding_batch_normalized =
        Inr rounding_batch_normalized"
      by (simp add: rounding_batch_normalized_def numeric_eval)
  qed simp_all
  have norm: "normalizable rounding_batch"
    by (simp add: rounding_batch_def normalizable_eval)
  have ld: "lower_columns ([diabetes_batch] ! 0) = diabetes_batch"
    by (simp add: diabetes_batch_def lower_eval)
  have r1: "getitem rounding_batch_lowered ''diabetes'' =
       Inr (Series (Float64Col [Fin 0.4, NaN, Fin 2.5, Fin 1.5, Fin 0.6]))"
    and r2: "getitem rounding_batch_lowered ''medication_use'' =
       Inr (Series (Float64Col [Fin 1, NaN, Fin 0, Fin 0, NaN]))"
    and r3: "getitem rounding_batch_lowered ''obesity'' = Inr (Series (Int64Col [0, 1, 5, 1, 0]))"
    by (simp_all add: rounding_batch_lowered_def getitem_def)
  have d1: "getitem diabetes_batch ''diabetes'' =
       Inr (Series (Float64Col [Fin 1, NaN, Fin 0, Fin 1]))"
    and d2: "getitem diabetes_batch ''smoking'' = Inr (Series (Int64Col [0, 1, 5, 1]))"
    by (simp_all add: diabetes_batch_def getitem_def)
  have n1: "getitem rounding_batch_normalized ''diabetes'' = Inr (Series (Int64Col [0, 1, 2, 2, 1]))"
    and n2: "getitem rounding_batch_normalized ''medication_use'' =
       Inr (Series (Int64Col [1, 0, 0, 0, 0]))"
    by (simp_all add: rounding_batch_normalized_def getitem_def)
  have n4: "getitem diabetes_batch_normalized ''diabetes'' = Inr (Series (Int64Col [1, 1, 0, 1]))"
    by (simp add: diabetes_batch_normalized_def getitem_def)
  have m: "middle (present [Fin 0.4, NaN, Fin 2.5, Fin 1.5, Fin 0.6]) = 1.05"
    "middle (present [Fin 1, NaN, Fin 0, Fin 0, NaN]) = 0"
    "middle (present [Fin 1, NaN, Fin 0, Fin 1]) = 1"
    by simp_all
  from binary_coercion [of "''obesity''" "[rounding_batch]" 0] run r3
  have n3: "getitem rounding_batch_normalized ''obesity'' = Inr (Series (Int64Col [0, 1, 5, 1, 0]))"
    unfolding lr by auto
  from binary_coercion [of "''smoking''" "[diabetes_batch]" 0] diabetes_batch_run d2
  have n5: "getitem diabetes_batch_normalized ''smoking'' = Inr (Series (Int64Col [0, 1, 5, 1]))"
    unfolding ld by auto
  show ?thesis
    unfolding lr ld
    using norm run r1 r2 r3 n1 n2 n3 m
      diabetes_batch_normalizable diabetes_batch_run d1 d2 n4 n5
    by simp
qed

subsection \<open>The empty batch\<close>

text \<open>
  C5 (as amended). Summarizing the empty sequence raises nothing: mean, min, max and std
  are NaN and both counts are 0.
\<close>

theorem statistics_empty:
  "statistics [] = \<lparr> mean = NaN, min_v = NaN, max_v = NaN, std = NaN, risk_count = 0, no_risk_count = 0 \<rparr>"
  by (simp add: statistics_def series_mean_def series_min_def series_max_def series_std_def)

text \<open>
  As claimed, the statement fails: with a classifier that accepts a frame without rows,
  the endpoint answers a batch without rows with a normal response carrying that record.
\<close>

theorem empty_batch_counterexample:
  "predict_from_csv (Some (loaded named_estimator)) ''empty.csv'' (Inr empty_batch) =
     Inr \<lparr>processed = 0,
          predictions = \<lparr>id_column = Int64Col [], prediction = []\<rparr>,
          download_url = ''/download/temp_predictions.csv'',
          statistics_of = \<lparr>mean = NaN, min_v = NaN, max_v = NaN, std = NaN,
                            risk_count = 0, no_risk_count = 0\<rparr>\<rparr>"
  by (simp add: predict_from_csv_def endswith_def empty_batch_predict statistics_def
      series_mean_def series_min_def series_max_def series_std_def)

subsection \<open>Single row and batch\<close>

text \<open>
  C6. On a frame with one row (every column holding one value) \<open>predict_single\<close> is the
  specification's \<open>predictSingle\<close>: it fails as \<open>predict_batch\<close> fails, and when
  \<open>predict_batch\<close> returns, the result holds one prediction and \<open>predict_single\<close>
  returns it, in the same store.
\<close>

theorem predict_single_is_batch_head:
  assumes "df < length st"
    and "nrows (st ! df) = 1"
    and "\<forall>c \<in> snd ` set (cols (st ! df)). col_length c = nrows (st ! df)"
  shows "predict_single self st df = predictSingle_spec self st df
     \<and> (\<forall>st' r. predict_batch self st df = (st', Inr r) \<longrightarrow>
           (\<exists>q. prediction r = [q] \<and> predict_single self st df = (st', Inr q)))"
proof -
  have one: "\<exists>q. prediction r = [q]" if pb: "predict_batch self st df = (st', Inr r)" for st' r
  proof -
    from pb obtain p preds ids where
      s: "preprocess_data st df = (st', Inr p)"
         "row_ids (st' ! df) = Inr ids"
         "make_result ids preds = Inr r"
      by (rule predict_batch_Inr)
    obtain ext where "fst (preprocess_data st df) = st @ ext"
      using preprocess_data_store by blast
    then have same: "st' ! df = st ! df" using s(1) assms(1) by (simp add: nth_append)
    obtain c where c: "ids = Series c" "prediction r = preds"
      "col_length c = length preds"
      using s(3) make_result_Inr by blast
    have "col_length c = 1"
    proof (cases "''id'' \<in> set (columns (st ! df))")
      case True
      then have "getitem (st ! df) ''id'' = Inr (Series c)"
        using s(2) same c(1) by (simp add: row_ids_def)
      then show ?thesis using assms(2,3) getitem_Series_member by fastforce
    next
      case False
      then show ?thesis using s(2) same c(1) assms(2) by (auto simp: row_ids_def)
    qed
    then have "length (prediction r) = 1" using c by simp
    then show ?thesis by (cases "prediction r") auto
  qed
  show ?thesis
  proof (cases "predict_batch self st df")
    case (Pair st' res)
    show ?thesis
    proof (cases res)
      case (Inl e)
      with Pair show ?thesis by (simp add: predict_single_def predictSingle_spec_def)
    next
      case (Inr r)
      with Pair one [of st' r] show ?thesis
        by (auto simp: predict_single_def predictSingle_spec_def)
    qed
  qed
qed

text \<open>The specification's row, scored 0.7 by either path.\<close>

theorem predict_single_is_batch_head_witness:
  "0 < length [scenario_row] \<and> nrows ([scenario_row] ! 0) = 1
   \<and> map col_length (map snd (cols ([scenario_row] ! 0))) = [1, 1, 1, 1, 1]
   \<and> predict_batch (loaded named_estimator) [scenario_row] 0 =
       ([scenario_row, scenario_row, scenario_row_normalized],
        Inr \<lparr>id_column = Int64Col [0], prediction = [Fin 0.7]\<rparr>)
   \<and> predict_single (loaded named_estimator) [scenario_row] 0 =
       ([scenario_row, scenario_row, scenario_row_normalized], Inr (Fin 0.7))
   \<and> predictSingle_spec (loaded named_estimator) [scenario_row] 0 =
       ([scenario_row, scenario_row, scenario_row_normalized], Inr (Fin 0.7))"
proof -
  have a: "0 < length [scenario_row]" "nrows ([scenario_row] ! 0) = 1"
    "\<forall>c \<in> snd ` set (cols ([scenario_row] ! 0)). col_length c = nrows ([scenario_row] ! 0)"
    by (simp_all add: scenario_row_def)
  from predict_single_is_batch_head [OF a, of "loaded named_estimator"] scenario_row_predict
  have "predict_single (loaded named_estimator) [scenario_row] 0 =
       ([scenario_row, scenario_row, scenario_row_normalized], Inr (Fin 0.7))"
    "predictSingle_spec (loaded named_estimator) [scenario_row] 0 =
       ([scenario_row, scenario_row, scenario_row_normalized], Inr (Fin 0.7))"
    by auto
  moreover have "map col_length (map snd (cols ([scenario_row] ! 0))) = [1, 1, 1, 1, 1]"
    by (simp add: scenario_row_def)
  ultimately show ?thesis using a(1,2) scenario_row_predict by blast
qed

subsection \<open>Where the predictions come from\<close>

text \<open>
  C7. When \<open>predict_batch\<close> returns, its predictions are the second column of what
  \<open>predict_proba\<close> gives for the normalized frame if the artifact has that method, and
  otherwise exactly what \<open>predict\<close> gives for it.
\<close>

theorem prediction_source:
  assumes "predict_batch self st df = (st', Inr r)"
  shows "\<exists>p. preprocess_data st df = (st', Inr p) \<and>
     (case predict_proba (model self) of
        Some proba \<Rightarrow> (\<exists>a. proba (st' ! p) = Inr a \<and> 1 < length a \<and> prediction r = a ! 1)
      | None \<Rightarrow> predict (model self) (st' ! p) = Inr (prediction r))"
proof -
  from assms obtain p preds ids where
    s: "preprocess_data st df = (st', Inr p)"
       "predictions_of (model self) (st' ! p) = Inr preds"
       "make_result ids preds = Inr r"
    by (rule predict_batch_Inr)
  have "prediction r = preds" using s(3) make_result_Inr by blast
  then have "case predict_proba (model self) of
        Some proba \<Rightarrow> (\<exists>a. proba (st' ! p) = Inr a \<and> 1 < length a \<and> prediction r = a ! 1)
      | None \<Rightarrow> predict (model self) (st' ! p) = Inr (prediction r)"
    using s(2)
    by (auto simp: predictions_of_def column_1_def split: option.splits sum.splits if_splits)
  then show ?thesis using s(1) by blast
qed

text \<open>
  Both branches on the four-row batch: the second probability column, 0.7 on every row,
  and the decision output 2.5, which is not brought into the unit interval.
\<close>

theorem prediction_source_witness:
  "predict_batch (loaded named_estimator) [diabetes_batch] 0 =
     ([diabetes_batch, diabetes_batch, diabetes_batch_normalized],
      Inr \<lparr>id_column = Int64Col [0, 1, 2, 3], prediction = [Fin 0.7, Fin 0.7, Fin 0.7, Fin 0.7]\<rparr>)
   \<and> (\<exists>proba. predict_proba (model (loaded named_estimator)) = Some proba \<and>
         proba diabetes_batch_normalized =
           Inr [[Fin 0.3, Fin 0.3, Fin 0.3, Fin 0.3], [Fin 0.7, Fin 0.7, Fin 0.7, Fin 0.7]])
   \<and> predict_batch (loaded score_estimator) [diabetes_batch] 0 =
     ([diabetes_batch, diabetes_batch, diabetes_batch_normalized],
      Inr \<lparr>id_column = Int64Col [0, 1, 2, 3], prediction = [Fin 2.5, Fin 2.5, Fin 2.5, Fin 2.5]\<rparr>)
   \<and> predict_proba (model (loaded score_estimator)) = None
   \<and> predict (model (loaded score_estimator)) diabetes_batch_normalized =
       Inr [Fin 2.5, Fin 2.5, Fin 2.5, Fin 2.5]"
  using prediction_source [OF diabetes_batch_predict_proba]
    prediction_source [OF diabetes_batch_predict_score]
    diabetes_batch_predict_proba diabetes_batch_predict_score diabetes_batch_run
  by (simp add: loaded_def named_estimator_def bare_estimator_def score_estimator_def
      diabetes_batch_normalized_def eval_nat_numeral)

subsection \<open>Dropped columns\<close>

text \<open>
  C8. Normalization returns when the frame is normalizable, and whenever it returns, the
  labels of the result are the lower-cased labels of the input without \<open>unnamed:_0\<close>,
  \<open>id\<close> and \<open>income\<close>, so none of the three is a label of the result; and the
  drop of line 64 never raises, whichever of them the frame has.
\<close>

theorem pruned_columns:
  "(normalizable (st ! df) \<longrightarrow> (\<exists>st' p. preprocess_data st df = (st', Inr p)))
   \<and> (\<forall>st' p. preprocess_data st df = (st', Inr p) \<longrightarrow>
         columns (st' ! p) = filter (\<lambda>n. n \<notin> set drop_cols) (map str_lower (columns (st ! df)))
         \<and> ''unnamed:_0'' \<notin> set (columns (st' ! p))
         \<and> ''id'' \<notin> set (columns (st' ! p))
         \<and> ''income'' \<notin> set (columns (st' ! p)))
   \<and> (\<forall>f. drop_columns f [col \<leftarrow> drop_cols. col \<in> set (columns f)] True
          = Inr (f\<lparr>cols := filter (\<lambda>q. fst q \<notin> set drop_cols) (cols f)\<rparr>))"
proof (intro conjI allI impI)
  assume "normalizable (st ! df)"
  then show "\<exists>st' p. preprocess_data st df = (st', Inr p)"
    by (rule normalizable_returns)
next
  fix st' p
  assume run: "preprocess_data st df = (st', Inr p)"
  show c: "columns (st' ! p) =
      filter (\<lambda>n. n \<notin> set drop_cols) (map str_lower (columns (st ! df)))"
    using run by (rule preprocess_data_columns)
  show "''unnamed:_0'' \<notin> set (columns (st' ! p))" unfolding c by (simp add: drop_cols_def)
  show "''id'' \<notin> set (columns (st' ! p))" unfolding c by (simp add: drop_cols_def)
  show "''income'' \<notin> set (columns (st' ! p))" unfolding c by (simp add: drop_cols_def)
next
  fix f
  show "drop_columns f [col \<leftarrow> drop_cols. col \<in> set (columns f)] True
          = Inr (f\<lparr>cols := filter (\<lambda>q. fst q \<notin> set drop_cols) (cols f)\<rparr>)"
    using drop_step [of f] by (simp add: prune_def)
qed

text \<open>
  A batch with the labels \<open>Unnamed:_0\<close>, \<open>ID\<close> and \<open>Age\<close> keeps \<open>age\<close> only.
\<close>

theorem pruned_columns_witness:
  "normalizable ([mixed_case_batch] ! 0)
   \<and> preprocess_data [mixed_case_batch] 0 =
     ([mixed_case_batch, mixed_case_batch_lowered, mixed_case_batch_normalized], Inr 2)
   \<and> columns mixed_case_batch = [''Unnamed:_0'', ''ID'', ''Age'']
   \<and> columns mixed_case_batch_normalized = [''age'']"
  using pruned_columns [of "[mixed_case_batch]" 0] mixed_case_batch_run
    mixed_case_batch_normalizable
  by (simp add: columns_def mixed_case_batch_def mixed_case_batch_normalized_def)

subsection \<open>The caller's frame\<close>

text \<open>
  C9. The frame the caller passed is the same object with the same contents after
  \<open>preprocess_data\<close> and after \<open>predict_batch\<close>, as is every other frame that was in
  the store; and the identifiers of a result are those read from that frame.
\<close>

theorem input_frame_unchanged:
  assumes "df < length st"
  shows "fst (preprocess_data st df) ! df = st ! df
     \<and> fst (predict_batch self st df) ! df = st ! df
     \<and> take (length st) (fst (predict_batch self st df)) = st
     \<and> (\<forall>r. snd (predict_batch self st df) = Inr r \<longrightarrow>
            row_ids (st ! df) = Inr (Series (id_column r)))"
proof -
  obtain ext where ext: "fst (preprocess_data st df) = st @ ext"
    using preprocess_data_store by blast
  have same: "fst (predict_batch self st df) ! df = st ! df"
    using assms ext by (simp add: predict_batch_store nth_append)
  have ids: "row_ids (st ! df) = Inr (Series (id_column r))"
    if "snd (predict_batch self st df) = Inr r" for r
  proof -
    have pb: "predict_batch self st df = (fst (predict_batch self st df), Inr r)"
      using that by (metis prod.collapse)
    then obtain p preds ids where
      "row_ids (fst (predict_batch self st df) ! df) = Inr ids"
      "make_result ids preds = Inr r"
      by (rule predict_batch_Inr)
    then show ?thesis using same make_result_Inr by fastforce
  qed
  show ?thesis using assms ext ids by (simp add: predict_batch_store nth_append)
qed

text \<open>
  A batch with an \<open>id\<close> column: the normalized frame has lost the column, the
  caller's frame has not, and the result carries its values.
\<close>

theorem input_frame_unchanged_witness:
  "0 < length [id_batch]
   \<and> fst (preprocess_data [id_batch] 0) ! 0 = id_batch
   \<and> predict_batch (loaded named_estimator) [id_batch] 0 =
       ([id_batch, id_batch_lowered, id_batch_normalized],
        Inr \<lparr>id_column = ObjectCol [OStr ''p1'', OStr ''p2''], prediction = [Fin 0.7, Fin 0.7]\<rparr>)
   \<and> row_ids id_batch = Inr (Series (ObjectCol [OStr ''p1'', OStr ''p2'']))
   \<and> columns id_batch = [''id'', ''Age'']"
  using input_frame_unchanged [of 0 "[id_batch]" "loaded named_estimator"] id_batch_predict
  by (simp add: columns_def id_batch_def)

subsection \<open>Identifiers and the case of the label\<close>

text \<open>
  C10. When no label of the caller's frame is exactly \<open>id\<close>, the identifiers of the
  result are the row numbers from 0, whatever other spelling of the label the frame has;
  and the normalized frame has no column \<open>id\<close>.
\<close>

theorem id_lookup_case_sensitive:
  assumes "df < length st"
    and "''id'' \<notin> set (columns (st ! df))"
    and "predict_batch self st df = (st', Inr r)"
  shows "id_column r = Int64Col (map int [0..<nrows (st ! df)])
     \<and> (\<exists>p. preprocess_data st df = (st', Inr p) \<and> ''id'' \<notin> set (columns (st' ! p)))"
proof -
  from assms(3) obtain p preds ids where
    s: "preprocess_data st df = (st', Inr p)"
       "row_ids (st' ! df) = Inr ids"
       "make_result ids preds = Inr r"
    by (rule predict_batch_Inr)
  obtain ext where "fst (preprocess_data st df) = st @ ext"
    using preprocess_data_store by blast
  then have "st' ! df = st ! df" using s(1) assms(1) by (simp add: nth_append)
  then have "ids = Series (Int64Col (map int [0..<nrows (st ! df)]))"
    using s(2) assms(2) by (simp add: row_ids_def)
  then have "id_column r = Int64Col (map int [0..<nrows (st ! df)])"
    using s(3) make_result_Inr by fastforce
  moreover have "''id'' \<notin> set (columns (st' ! p))"
    using preprocess_data_columns [OF s(1)] by (simp add: drop_cols_def)
  ultimately show ?thesis using s(1) by blast
qed

text \<open>
  A batch whose identifier column is labelled \<open>ID\<close>: the identifiers 10 and 11 are
  dropped from the features and not used; the result is numbered 0 and 1.
\<close>

theorem id_lookup_case_sensitive_witness:
  "0 < length [mixed_case_batch]
   \<and> ''id'' \<notin> set (columns ([mixed_case_batch] ! 0))
   \<and> str_lower ''ID'' = ''id'' \<and> ''ID'' \<in> set (columns ([mixed_case_batch] ! 0))
   \<and> predict_batch (loaded named_estimator) [mixed_case_batch] 0 =
       ([mixed_case_batch, mixed_case_batch_lowered, mixed_case_batch_normalized],
        Inr \<lparr>id_column = Int64Col [0, 1], prediction = [Fin 0.7, Fin 0.7]\<rparr>)
   \<and> ''id'' \<notin> set (columns mixed_case_batch_normalized)"
proof -
  have a: "0 < length [mixed_case_batch]" by simp
  have b: "''id'' \<notin> set (columns ([mixed_case_batch] ! 0))"
    by (simp add: columns_def mixed_case_batch_def)
  have c: "str_lower ''ID'' = ''id''" "''ID'' \<in> set (columns ([mixed_case_batch] ! 0))"
    by (simp_all add: columns_def mixed_case_batch_def str_lower_def char_lower_def)
  from id_lookup_case_sensitive [OF a b mixed_case_batch_predict] mixed_case_batch_run
  have "''id'' \<notin> set (columns mixed_case_batch_normalized)" by simp
  with a b c mixed_case_batch_predict show ?thesis by blast
qed

end
